theory Spec2Isabelle
  imports Complex_Main
begin

section \<open>Errors\<close>

text \<open>
  The exceptions the library raises, as values. \<open>ValueError\<close> and \<open>TypeError\<close> carry
  the text the source formats into the exception. \<open>AttributeError\<close> is a method call
  on \<open>None\<close>, \<open>IndexError\<close> an index out of range, \<open>InternalInvariant\<close> the abort of
  the solution factory, \<open>RecursionError\<close> the interpreter's bound on nested calls.
\<close>

datatype error =
    BlockUsageError
  | TypeError string
  | ValueError string
  | AssertionError
  | AttributeError
  | IndexError
  | InternalInvariant
  | RecursionError

section \<open>The block tree\<close>

text \<open>
  One constructor per concrete class of \<^verbatim>\<open>blocks.py\<close> and \<^verbatim>\<open>extras.py\<close>:
  \<^item> \<open>TextBlock text is_breaking\<close>;
  \<^item> \<open>VerbBlock lines is_breaking first_nl\<close>;
  \<^item> \<open>LineBlock elements\<close>, \<open>ChoiceBlock elements\<close>;
  \<^item> \<open>StackBlock elements break_mult\<close>;
  \<^item> \<open>WrapBlock elements sep break_mult prefix\<close>;
  \<^item> \<open>JoinedLineBlock elements joiner join_breaking\<close>, the joiner being a string or a block.
\<close>

datatype block =
    TextBlock string bool
  | VerbBlock "string list" bool bool
  | LineBlock "block list"
  | ChoiceBlock "block list"
  | StackBlock "block list" real
  | WrapBlock "block list" string real "string option"
  | JoinedLineBlock "block list" "string + block" bool

text \<open>
  \<open>is_breaking\<close>: the constructor argument of a leaf; for a composite,
  \<^verbatim>\<open>True if self.elements and self.elements[-1].is_breaking else False\<close>.
\<close>

fun is_breaking :: "block \<Rightarrow> bool"
  and last_is_breaking :: "block list \<Rightarrow> bool" where
  "is_breaking (TextBlock t b) = b"
| "is_breaking (VerbBlock ls b fnl) = b"
| "is_breaking (LineBlock es) = last_is_breaking es"
| "is_breaking (ChoiceBlock es) = last_is_breaking es"
| "is_breaking (StackBlock es bm) = last_is_breaking es"
| "is_breaking (WrapBlock es sp bm pf) = last_is_breaking es"
| "is_breaking (JoinedLineBlock es j jb) = last_is_breaking es"
| "last_is_breaking [] = False"
| "last_is_breaking [e] = is_breaking e"
| "last_is_breaking (e # e' # es) = last_is_breaking (e' # es)"

section \<open>Options\<close>

text \<open>
  The four costs of \<open>Options\<close> are Python floats. A float is a finite number, one of the
  two infinities, or NaN; the finite ones are read as reals. Comparison with zero is the
  IEEE one: every comparison with NaN is false, so for NaN neither \<open>x >= 0\<close> nor
  \<open>x < 0\<close> holds.
\<close>

datatype pyfloat = Finite real | PosInf | NegInf | NaN

definition float_ge_zero :: "pyfloat \<Rightarrow> bool" where
  "float_ge_zero x = (case x of Finite r \<Rightarrow> r \<ge> 0 | PosInf \<Rightarrow> True | NegInf \<Rightarrow> False | NaN \<Rightarrow> False)"

definition float_lt_zero :: "pyfloat \<Rightarrow> bool" where
  "float_lt_zero x = (case x of Finite r \<Rightarrow> r < 0 | PosInf \<Rightarrow> False | NegInf \<Rightarrow> True | NaN \<Rightarrow> False)"

text \<open>
  The fields of the dataclass, with the type of the costs left open: \<open>float_options\<close> is
  the object as Python holds it, \<open>options\<close> the same fields with finite costs read as
  reals, which is what the layout arithmetic below works on.
\<close>

record 'c options_fields =
  margin_0 :: int
  margin_0_cost :: 'c
  margin_1 :: int
  margin_1_cost :: 'c
  break_cost :: 'c
  late_pack_cost :: 'c
  break_element_lines :: "(block list list \<Rightarrow> block list list) option"

type_synonym options = "real options_fields"

type_synonym float_options = "pyfloat options_fields"

definition finite_options :: "options \<Rightarrow> float_options" where
  "finite_options opts =
     \<lparr>margin_0 = margin_0 opts, margin_0_cost = Finite (margin_0_cost opts),
      margin_1 = margin_1 opts, margin_1_cost = Finite (margin_1_cost opts),
      break_cost = Finite (break_cost opts), late_pack_cost = Finite (late_pack_cost opts),
      break_element_lines = break_element_lines opts\<rparr>"

text \<open>
  \<open>Options.Check\<close>: the six assertions in source order; the first one that fails names the
  option in the \<open>ValueError\<close>.
\<close>

definition Check :: "float_options \<Rightarrow> error + unit" where
  "Check self =
    (if \<not> margin_0 self \<ge> 0 then Inl (ValueError ''Illegal option value for 'margin_0' '')
     else if \<not> margin_1 self \<ge> margin_0 self
       then Inl (ValueError ''Illegal option value for 'margin_1' '')
     else if \<not> float_ge_zero (margin_0_cost self)
       then Inl (ValueError ''Illegal option value for 'margin_0_cost' '')
     else if \<not> float_ge_zero (margin_1_cost self)
       then Inl (ValueError ''Illegal option value for 'margin_1_cost' '')
     else if \<not> float_ge_zero (break_cost self)
       then Inl (ValueError ''Illegal option value for 'break_cost' '')
     else if \<not> float_ge_zero (late_pack_cost self)
       then Inl (ValueError ''Illegal option value for 'late_pack_cost' '')
     else Inr ())"

text \<open>
  Construction of an \<open>Options\<close> value: the dataclass stores the fields and
  \<open>__post_init__\<close> runs \<open>Check\<close>.
\<close>

definition Options ::
  "int \<Rightarrow> pyfloat \<Rightarrow> int \<Rightarrow> pyfloat \<Rightarrow> pyfloat \<Rightarrow> pyfloat \<Rightarrow>
   (block list list \<Rightarrow> block list list) option \<Rightarrow> error + float_options" where
  "Options m0 m0c m1 m1c bc lpc hook =
    (let self = \<lparr>margin_0 = m0, margin_0_cost = m0c, margin_1 = m1, margin_1_cost = m1c,
                  break_cost = bc, late_pack_cost = lpc, break_element_lines = hook\<rparr>
     in case Check self of Inl e \<Rightarrow> Inl e | Inr u \<Rightarrow> Inr self)"

section \<open>Construction of composite blocks\<close>

text \<open>
  Python is untyped: the iterable handed to a composite constructor may hold anything. An
  element is either a block or some other object, kept by its printed form (the text of
  the \<open>TypeError\<close>).
\<close>

datatype pyobj = IsBlock block | NotBlock string

text \<open>The \<^verbatim>\<open>for e in self.elements\<close> loop of \<open>CompositeLayoutBlock.__init__\<close>.\<close>

fun check_elements :: "pyobj list \<Rightarrow> error + block list" where
  "check_elements [] = Inr []"
| "check_elements (NotBlock r # es) = Inl (TypeError (r @ '' is not a LayoutBlock''))"
| "check_elements (IsBlock b # es) =
     (case check_elements es of Inl e \<Rightarrow> Inl e | Inr bs \<Rightarrow> Inr (b # bs))"

definition CompositeLayoutBlock_init :: "pyobj list \<Rightarrow> error + block list" where
  "CompositeLayoutBlock_init elements =
    (if elements = [] then Inl BlockUsageError else check_elements elements)"

text \<open>The concrete constructors all start with \<open>super().__init__(elements)\<close>.\<close>

definition new_LineBlock :: "pyobj list \<Rightarrow> error + block" where
  "new_LineBlock elements = map_sum id LineBlock (CompositeLayoutBlock_init elements)"

definition new_ChoiceBlock :: "pyobj list \<Rightarrow> error + block" where
  "new_ChoiceBlock elements = map_sum id ChoiceBlock (CompositeLayoutBlock_init elements)"

definition new_StackBlock :: "pyobj list \<Rightarrow> real \<Rightarrow> error + block" where
  "new_StackBlock elements break_mult =
     map_sum id (\<lambda>es. StackBlock es break_mult) (CompositeLayoutBlock_init elements)"

definition new_WrapBlock ::
  "pyobj list \<Rightarrow> string \<Rightarrow> real \<Rightarrow> string option \<Rightarrow> error + block" where
  "new_WrapBlock elements sep break_mult prefix =
     map_sum id (\<lambda>es. WrapBlock es sep break_mult prefix) (CompositeLayoutBlock_init elements)"

definition new_JoinedLineBlock ::
  "pyobj list \<Rightarrow> string + block \<Rightarrow> bool \<Rightarrow> error + block" where
  "new_JoinedLineBlock elements joiner join_breaking =
     map_sum id (\<lambda>es. JoinedLineBlock es joiner join_breaking)
       (CompositeLayoutBlock_init elements)"

text \<open>The constructors of the five composite kinds, with their other arguments fixed.\<close>

definition composite_constructors ::
  "real \<Rightarrow> string \<Rightarrow> string option \<Rightarrow> string + block \<Rightarrow> bool \<Rightarrow> (pyobj list \<Rightarrow> error + block) list" where
  "composite_constructors break_mult sep prefix joiner join_breaking =
     [new_LineBlock,
      (\<lambda>es. new_StackBlock es break_mult),
      new_ChoiceBlock,
      (\<lambda>es. new_WrapBlock es sep break_mult prefix),
      (\<lambda>es. new_JoinedLineBlock es joiner join_breaking)]"

fun is_block :: "pyobj \<Rightarrow> bool" where
  "is_block (IsBlock b) = True"
| "is_block (NotBlock r) = False"

section \<open>Layouts and solutions\<close>

datatype LayoutElement = String string | NewLine int

type_synonym Layout = "LayoutElement list"

text \<open>
  Modelled from the spec: the class \<open>Solution\<close> lives in \<^verbatim>\<open>support.py\<close>, which is not
  among the sources. The spec (3.4) gives it as five parallel sequences indexed by knot;
  the source reads the last one as \<open>layouts\<close>.
\<close>

record solution =
  knots :: "int list"
  spans :: "int list"
  costs :: "real list"
  slopes :: "real list"
  layouts :: "Layout list"

text \<open>
  Modelled from the spec: the constructor call
  \<^verbatim>\<open>support.Solution(knots, spans, costs, slopes, layouts, options=options)\<close>.
\<close>

definition Solution ::
  "int list \<Rightarrow> int list \<Rightarrow> real list \<Rightarrow> real list \<Rightarrow> Layout list \<Rightarrow> options \<Rightarrow> solution" where
  "Solution ks ss cs gs ls opts =
     \<lparr>knots = ks, spans = ss, costs = cs, slopes = gs, layouts = ls\<rparr>"

text \<open>
  The operations of \<^verbatim>\<open>support.py\<close> that the spec describes only as a sweep over
  knots are parameters of the development: \<open>hcompose\<close> is horizontal composition with a
  continuation that is present, \<open>vsum\<close> the vertical sum of one or more solutions,
  \<open>min_envelope\<close> the lower envelope of two or more candidates. Every theorem below holds
  for all of their implementations.
\<close>

record support =
  hcompose :: "solution \<Rightarrow> solution \<Rightarrow> solution"
  vsum :: "solution list \<Rightarrow> options \<Rightarrow> solution"
  min_envelope :: "solution list \<Rightarrow> options \<Rightarrow> solution"

text \<open>
  Modelled from the spec: \<open>Solution.WithRestOfLine\<close> (4.1): "If \<open>rest\<close> is \<open>None\<close>,
  result is \<open>self\<close>"; otherwise the horizontal composition.
\<close>

definition WithRestOfLine :: "support \<Rightarrow> solution \<Rightarrow> solution option \<Rightarrow> solution" where
  "WithRestOfLine ops self rest =
     (case rest of None \<Rightarrow> self | Some r \<Rightarrow> hcompose ops self r)"

text \<open>
  Modelled from the spec: \<open>Solution.PlusConst\<close> (4.1): "Shifts all \<open>cost_at_knot\<close> by
  \<open>c\<close>; slopes, knots, spans, layouts unchanged."
\<close>

definition PlusConst :: "solution \<Rightarrow> real \<Rightarrow> solution" where
  "PlusConst self c = self\<lparr>costs := map (\<lambda>x. x + c) (costs self)\<rparr>"

text \<open>
  Modelled from the spec: \<open>VSumSolution\<close> (4.1) stacks a list of solutions as successive
  lines. \<open>StackBlock\<close> tests its result against \<open>None\<close> ("a degenerate solution"): that
  is the result on no solutions at all.
\<close>

definition VSumSolution :: "support \<Rightarrow> solution list \<Rightarrow> options \<Rightarrow> solution option" where
  "VSumSolution ops solutions opts =
     (if solutions = [] then None else Some (vsum ops solutions opts))"

text \<open>
  Modelled from the spec: \<open>MinSolution\<close> (4.1) produces the lower envelope of the
  candidates; the lower envelope of a single candidate is that candidate.
\<close>

definition MinSolution :: "support \<Rightarrow> solution list \<Rightarrow> options \<Rightarrow> solution" where
  "MinSolution ops solutions opts =
     (case solutions of [s] \<Rightarrow> s | _ \<Rightarrow> min_envelope ops solutions opts)"

text \<open>
  Modelled from the spec: \<open>SolutionFactory\<close> (4.1), "an append-only builder.
  \<open>append(knot, span, cost, slope, layout)\<close> enforces strict knot monotonicity and slope
  monotonicity; \<open>build()\<close> yields a \<open>Solution\<close>"; a violated invariant aborts (7).
\<close>

type_synonym factory = "(int \<times> int \<times> real \<times> real \<times> Layout) list"

definition SolutionFactory :: factory where
  "SolutionFactory = []"

definition Append ::
  "factory \<Rightarrow> int \<Rightarrow> int \<Rightarrow> real \<Rightarrow> real \<Rightarrow> Layout \<Rightarrow> error + factory" where
  "Append sf knot spn cost slope layout =
     (if sf \<noteq> [] \<and> (knot \<le> fst (last sf) \<or> slope < fst (snd (snd (snd (last sf)))))
      then Inl InternalInvariant
      else Inr (sf @ [(knot, spn, cost, slope, layout)]))"

definition MkSolution :: "factory \<Rightarrow> options \<Rightarrow> solution" where
  "MkSolution sf opts =
     Solution (map fst sf) (map (fst \<circ> snd) sf) (map (fst \<circ> snd \<circ> snd) sf)
       (map (fst \<circ> snd \<circ> snd \<circ> snd) sf) (map (snd \<circ> snd \<circ> snd \<circ> snd) sf) opts"

text \<open>
  Modelled from the spec: \<open>Console.PrintLayout\<close> (4.9): "The external writer walks
  elements: \<open>String(s)\<close> appends \<open>s\<close>; \<open>NewLine(i)\<close> emits a newline then \<open>i\<close>
  spaces."
\<close>

fun PrintLayout :: "Layout \<Rightarrow> string" where
  "PrintLayout [] = []"
| "PrintLayout (String s # es) = s @ PrintLayout es"
| "PrintLayout (NewLine i # es) = CHR 0x0A # replicate (nat i) CHR '' '' @ PrintLayout es"

section \<open>TextBlock\<close>

definition TextBlock_DoOptLayout ::
  "support \<Rightarrow> string \<Rightarrow> solution option \<Rightarrow> options \<Rightarrow> solution" where
  "TextBlock_DoOptLayout ops text rest_of_line opts =
    (let span = int (length text);
         layout = [String text];
         s = (if span \<ge> margin_1 opts then
                Solution [0] [span]
                  [real_of_int (span - margin_0 opts) * margin_0_cost opts
                   + real_of_int ((span - margin_1 opts) * margin_1 opts)]
                  [margin_0_cost opts + margin_1_cost opts]
                  [layout] opts
              else if span \<ge> margin_0 opts then
                Solution [0, margin_1 opts - span] [span, span]
                  [real_of_int (span - margin_0 opts) * margin_0_cost opts,
                   real_of_int (margin_1 opts - margin_0 opts) * margin_0_cost opts]
                  [margin_0_cost opts, margin_0_cost opts + margin_1_cost opts]
                  [layout, layout] opts
              else
                Solution [0, margin_0 opts - span, margin_1 opts - span] [span, span, span]
                  [0, 0, real_of_int (margin_1 opts - margin_0 opts) * margin_0_cost opts]
                  [0, margin_0_cost opts, margin_0_cost opts + margin_1_cost opts]
                  [layout, layout, layout] opts)
     in WithRestOfLine ops s rest_of_line)"

section \<open>Children\<close>

text \<open>
  A composite block asks each child for its solution through the child's \<open>OptLayout\<close>
  method. In the functions below that method is the argument \<open>OL\<close>: given the child, the
  continuation and the options it returns a solution or raises.
\<close>

type_synonym opt_layout = "block \<Rightarrow> solution option \<Rightarrow> options \<Rightarrow> error + solution"

text \<open>A list comprehension over calls that may raise: the first exception ends it.\<close>

fun mapE :: "('a \<Rightarrow> error + 'b) \<Rightarrow> 'a list \<Rightarrow> error + 'b list" where
  "mapE f [] = Inr []"
| "mapE f (x # xs) =
     (case f x of Inl e \<Rightarrow> Inl e
      | Inr y \<Rightarrow> (case mapE f xs of Inl e \<Rightarrow> Inl e | Inr ys \<Rightarrow> Inr (y # ys)))"

section \<open>StackBlock\<close>

text \<open>
  The branch \<^verbatim>\<open>if soln is None: return rest_of_line\<close> hands the continuation back. The
  list given to \<open>VSumSolution\<close> has one entry per element, so with elements present the
  branch is dead. The method is declared to return a \<open>Solution\<close>; were the continuation
  \<open>None\<close> too, the caller's next method call on the result would raise
  \<open>AttributeError\<close>, which is what the model returns there.
\<close>

definition StackBlock_DoOptLayout ::
  "support \<Rightarrow> opt_layout \<Rightarrow> block list \<Rightarrow> real \<Rightarrow> solution option \<Rightarrow> options
     \<Rightarrow> error + solution" where
  "StackBlock_DoOptLayout ops OL elements break_mult rest_of_line opts =
    (if elements = [] then
       (case rest_of_line of None \<Rightarrow> Inl AssertionError | Some r \<Rightarrow> Inr r)
     else
       (case mapE (\<lambda>e. OL e None opts) (butlast elements) of Inl e \<Rightarrow> Inl e
        | Inr firsts \<Rightarrow>
       (case OL (last elements) rest_of_line opts of Inl e \<Rightarrow> Inl e
        | Inr final \<Rightarrow>
       (case VSumSolution ops (firsts @ [final]) opts of
          None \<Rightarrow> (case rest_of_line of None \<Rightarrow> Inl AttributeError | Some r \<Rightarrow> Inr r)
        | Some soln \<Rightarrow>
            Inr (PlusConst soln
                   (break_cost opts * break_mult
                      * real_of_int (max (int (length elements) - 1) 0)))))))"

section \<open>LineBlock\<close>

text \<open>
  The \<^verbatim>\<open>for i, elt in enumerate(self.elements)\<close> loop: \<open>n\<close> is \<open>len(self.elements)\<close>,
  \<open>i\<close> the index of the next element, \<open>element_lines\<close> the list built so far.
\<close>

fun build_element_lines ::
  "nat \<Rightarrow> nat \<Rightarrow> block list \<Rightarrow> block list list \<Rightarrow> block list list" where
  "build_element_lines n i [] element_lines = element_lines"
| "build_element_lines n i (elt # elts) element_lines =
     (let appended = butlast element_lines @ [last element_lines @ [elt]]
      in build_element_lines n (Suc i) elts
           (if int i < int n - 1 \<and> is_breaking elt then appended @ [[]] else appended))"

text \<open>The inner loop \<^verbatim>\<open>for elt in ln[::-1]\<close>, over the reversed line.\<close>

fun fold_line :: "opt_layout \<Rightarrow> options \<Rightarrow> block list \<Rightarrow> solution option
    \<Rightarrow> error + solution option" where
  "fold_line OL opts [] ln_layout = Inr ln_layout"
| "fold_line OL opts (elt # elts) ln_layout =
     (case OL elt ln_layout opts of Inl e \<Rightarrow> Inl e
      | Inr s \<Rightarrow> fold_line OL opts elts (Some s))"

text \<open>
  The outer loop \<^verbatim>\<open>for i, ln in enumerate(element_lines)\<close>: \<open>n\<close> is
  \<open>len(element_lines)\<close>; the result is \<open>line_solns\<close>.
\<close>

fun solve_lines :: "opt_layout \<Rightarrow> options \<Rightarrow> nat \<Rightarrow> nat \<Rightarrow> block list list
    \<Rightarrow> solution option \<Rightarrow> error + solution option list" where
  "solve_lines OL opts n i [] rest_of_line = Inr []"
| "solve_lines OL opts n i (line # lines) rest_of_line =
     (case fold_line OL opts (rev line) (if int i < int n - 1 then None else rest_of_line) of
        Inl e \<Rightarrow> Inl e
      | Inr ln_layout \<Rightarrow>
          (case solve_lines OL opts n (Suc i) lines rest_of_line of Inl e \<Rightarrow> Inl e
           | Inr line_solns \<Rightarrow> Inr (ln_layout # line_solns)))"

text \<open>
  \<open>filter(None, line_solns)\<close> keeps the solutions that are present; a call of
  \<open>PlusConst\<close> on the \<open>None\<close> that \<open>VSumSolution\<close> gives for no solutions is an
  \<open>AttributeError\<close>.
\<close>

definition LineBlock_DoOptLayout ::
  "support \<Rightarrow> opt_layout \<Rightarrow> block list \<Rightarrow> solution option \<Rightarrow> options \<Rightarrow> error + solution" where
  "LineBlock_DoOptLayout ops OL elements rest_of_line opts =
    (if elements = [] then
       (case rest_of_line of None \<Rightarrow> Inl AssertionError | Some r \<Rightarrow> Inr r)
     else
       let split = build_element_lines (length elements) 0 elements [[]];
           element_lines =
             (if length split > 1
              then (case break_element_lines opts of Some hook \<Rightarrow> hook split | None \<Rightarrow> split)
              else split)
       in (case solve_lines OL opts (length element_lines) 0 element_lines rest_of_line of
             Inl e \<Rightarrow> Inl e
           | Inr line_solns \<Rightarrow>
               (case VSumSolution ops (List.map_filter id line_solns) opts of
                  None \<Rightarrow> Inl AttributeError
                | Some soln \<Rightarrow>
                    Inr (PlusConst soln
                           (break_cost opts * real_of_int (int (length line_solns) - 1))))))"

text \<open>
  The element-lines in the words of the spec: the children, split after each child that is
  breaking and is not the last one.
\<close>

fun element_lines_spec :: "block list \<Rightarrow> block list list" where
  "element_lines_spec [] = [[]]"
| "element_lines_spec [e] = [[e]]"
| "element_lines_spec (e # e' # es) =
     (if is_breaking e then [e] # element_lines_spec (e' # es)
      else (case element_lines_spec (e' # es) of
              [] \<Rightarrow> [[e]]
            | line # lines \<Rightarrow> (e # line) # lines))"

text \<open>
  The fold of one element-line in the words of the spec: right to left, each child solved
  with the accumulator as its continuation; \<open>sol child continuation\<close> is the solution
  the child's \<open>OptLayout\<close> returns.
\<close>

fun fold_right_spec ::
  "(block \<Rightarrow> solution option \<Rightarrow> solution) \<Rightarrow> block list \<Rightarrow> solution option \<Rightarrow> solution option" where
  "fold_right_spec sol [] acc = acc"
| "fold_right_spec sol (e # es) acc = Some (sol e (fold_right_spec sol es acc))"

definition line_solutions_spec ::
  "(block \<Rightarrow> solution option \<Rightarrow> solution) \<Rightarrow> block list list \<Rightarrow> solution option
     \<Rightarrow> solution option list" where
  "line_solutions_spec sol lines rest_of_line =
     map (\<lambda>line. fold_right_spec sol line None) (butlast lines)
       @ [fold_right_spec sol (last lines) rest_of_line]"

text \<open>
  The element-lines that are folded, in the words of the spec (4.3): "If more than one
  element-line exists and the \<open>break_element_lines\<close> option is set, hand the list of
  element-lines to the hook and use its result."
\<close>

definition element_lines_used :: "options \<Rightarrow> block list \<Rightarrow> block list list" where
  "element_lines_used opts elements =
     (if length (element_lines_spec elements) > 1
      then (case break_element_lines opts of
              Some hook \<Rightarrow> hook (element_lines_spec elements)
            | None \<Rightarrow> element_lines_spec elements)
      else element_lines_spec elements)"

section \<open>ChoiceBlock\<close>

definition ChoiceBlock_DoOptLayout ::
  "support \<Rightarrow> opt_layout \<Rightarrow> block list \<Rightarrow> solution option \<Rightarrow> options \<Rightarrow> error + solution" where
  "ChoiceBlock_DoOptLayout ops OL elements rest_of_line opts =
    (case mapE (\<lambda>e. OL e rest_of_line opts) elements of Inl e \<Rightarrow> Inl e
     | Inr solutions \<Rightarrow> Inr (MinSolution ops solutions opts))"

section \<open>WrapBlock\<close>

text \<open>
  The inner loop \<^verbatim>\<open>for j in range(i, self.n - 1)\<close> with its \<open>break\<close> and its
  \<open>else\<close> clause. The state is \<open>j\<close>, \<open>line_layout\<close>, \<open>last_breaking\<close> and the
  list \<open>solutions_i\<close>; leaving through \<open>break\<close> skips the \<open>else\<close> clause, which
  appends the line composed with \<open>rest_of_line\<close>.
\<close>

function wrap_inner ::
  "support \<Rightarrow> options \<Rightarrow> block list \<Rightarrow> solution list \<Rightarrow> solution \<Rightarrow> solution option list
     \<Rightarrow> real \<Rightarrow> nat \<Rightarrow> solution option
     \<Rightarrow> nat \<Rightarrow> solution \<Rightarrow> bool \<Rightarrow> solution list \<Rightarrow> error + solution list" where
  "wrap_inner ops opts elements elt_layouts sep_layout wrap_solutions break_mult n rest_of_line
      j line_layout last_breaking solutions_i =
    (if int j < int n - 1 then
       (case wrap_solutions ! (j + 1) of
          None \<Rightarrow> Inl AssertionError
        | Some solution_j \<Rightarrow>
            (case VSumSolution ops [line_layout, solution_j] opts of
               None \<Rightarrow> Inl AttributeError
             | Some full_soln \<Rightarrow>
                 let appended = solutions_i @
                       [PlusConst full_soln
                          (break_cost opts * break_mult
                             + late_pack_cost opts * real_of_int (int n - int j))]
                 in if last_breaking then Inr appended
                    else
                      let sep_elt_layout =
                            WithRestOfLine ops sep_layout (Some (elt_layouts ! (j + 1)));
                          extended = WithRestOfLine ops line_layout (Some sep_elt_layout)
                      in wrap_inner ops opts elements elt_layouts sep_layout wrap_solutions
                           break_mult n rest_of_line
                           (j + 1) extended (is_breaking (elements ! (j + 1))) appended))
     else Inr (solutions_i @ [WithRestOfLine ops line_layout rest_of_line]))"
  by pat_completeness auto
termination
  by (relation "measure (\<lambda>(ops, opts, elements, elt_layouts, sep_layout, wrap_solutions,
        break_mult, n, rest_of_line, j, line_layout, last_breaking, solutions_i). n - j)") auto

declare wrap_inner.simps [simp del]

text \<open>
  The outer loop \<^verbatim>\<open>for i in range(self.n - 1, -1, -1)\<close>: the first argument counts the
  iterations left, so that the iteration run at \<open>Suc i\<close> is the one for index \<open>i\<close>.
\<close>

fun wrap_outer ::
  "support \<Rightarrow> options \<Rightarrow> block list \<Rightarrow> solution list \<Rightarrow> solution \<Rightarrow> solution option
     \<Rightarrow> real \<Rightarrow> nat \<Rightarrow> solution option
     \<Rightarrow> nat \<Rightarrow> solution option list \<Rightarrow> error + solution option list" where
  "wrap_outer ops opts elements elt_layouts sep_layout prefix_layout break_mult n rest_of_line
      0 wrap_solutions = Inr wrap_solutions"
| "wrap_outer ops opts elements elt_layouts sep_layout prefix_layout break_mult n rest_of_line
      (Suc i) wrap_solutions =
     (let line_layout =
            (case prefix_layout of None \<Rightarrow> elt_layouts ! i
             | Some p \<Rightarrow> WithRestOfLine ops p (Some (elt_layouts ! i)))
      in case wrap_inner ops opts elements elt_layouts sep_layout wrap_solutions break_mult n
                rest_of_line i line_layout (is_breaking (elements ! i)) [] of
           Inl e \<Rightarrow> Inl e
         | Inr solutions_i \<Rightarrow>
             wrap_outer ops opts elements elt_layouts sep_layout prefix_layout break_mult n
               rest_of_line i (wrap_solutions[i := Some (MinSolution ops solutions_i opts)]))"

text \<open>
  \<open>WrapBlock.DoOptLayout\<close>. The separator is solved through \<open>OptLayout\<close> of a new
  \<open>TextBlock\<close>, the prefix through \<open>TextBlock.DoOptLayout\<close> directly, and only when
  \<^verbatim>\<open>self.prefix\<close> is true, that is neither \<open>None\<close> nor empty. \<open>wrap_solutions[0]\<close> on
  an empty list is an \<open>IndexError\<close>.
\<close>

definition WrapBlock_DoOptLayout ::
  "support \<Rightarrow> opt_layout \<Rightarrow> block list \<Rightarrow> string \<Rightarrow> real \<Rightarrow> string option
     \<Rightarrow> solution option \<Rightarrow> options \<Rightarrow> error + solution" where
  "WrapBlock_DoOptLayout ops OL elements sep break_mult prefix rest_of_line opts =
    (case OL (TextBlock sep False) None opts of Inl e \<Rightarrow> Inl e
     | Inr sep_layout \<Rightarrow>
    (let prefix_layout =
           (case prefix of None \<Rightarrow> None
            | Some p \<Rightarrow> if p = [] then None else Some (TextBlock_DoOptLayout ops p None opts))
     in (case mapE (\<lambda>e. OL e None opts) elements of Inl e \<Rightarrow> Inl e
         | Inr elt_layouts \<Rightarrow>
        (let n = length elements in
         (case wrap_outer ops opts elements elt_layouts sep_layout prefix_layout break_mult n
                 rest_of_line n (replicate n None) of
            Inl e \<Rightarrow> Inl e
          | Inr wrap_solutions \<Rightarrow>
              (if wrap_solutions = [] then Inl IndexError
               else (case wrap_solutions ! 0 of None \<Rightarrow> Inl AssertionError
                     | Some result \<Rightarrow> Inr result)))))))"

text \<open>
  The candidates of \<open>wrap[i]\<close> in the words of the spec. \<open>wrap_line\<close> is the line that
  holds the elements \<open>i..j\<close>: the prefix when there is one, the element \<open>i\<close>, then for
  each further element the separator and the element.
\<close>

definition wrap_line ::
  "support \<Rightarrow> solution list \<Rightarrow> solution \<Rightarrow> solution option \<Rightarrow> nat \<Rightarrow> nat \<Rightarrow> solution" where
  "wrap_line ops elt_layouts sep_layout prefix_layout i j =
     foldl (\<lambda>line m. WithRestOfLine ops line
                        (Some (WithRestOfLine ops sep_layout (Some (elt_layouts ! m)))))
       (case prefix_layout of None \<Rightarrow> elt_layouts ! i
        | Some p \<Rightarrow> WithRestOfLine ops p (Some (elt_layouts ! i)))
       [i + 1 ..< j + 1]"

text \<open>
  \<open>wrap_stop\<close> is the first \<open>j \<ge> i\<close> below \<open>n - 1\<close> whose element mandates a break:
  the line cannot be extended past it.
\<close>

definition wrap_stop :: "block list \<Rightarrow> nat \<Rightarrow> nat option" where
  "wrap_stop elements i =
     List.find (\<lambda>j. is_breaking (elements ! j)) [i ..< length elements - 1]"

definition wrap_candidates ::
  "support \<Rightarrow> options \<Rightarrow> block list \<Rightarrow> solution list \<Rightarrow> solution \<Rightarrow> solution option
     \<Rightarrow> real \<Rightarrow> solution option \<Rightarrow> (nat \<Rightarrow> solution) \<Rightarrow> nat \<Rightarrow> solution list" where
  "wrap_candidates ops opts elements elt_layouts sep_layout prefix_layout break_mult
      rest_of_line wrap i =
    (let n = length elements;
         broken = (\<lambda>j. PlusConst
                     (vsum ops [wrap_line ops elt_layouts sep_layout prefix_layout i j,
                                wrap (j + 1)] opts)
                     (break_cost opts * break_mult
                        + late_pack_cost opts * real_of_int (int n - int j)))
     in case wrap_stop elements i of
          Some stop \<Rightarrow> map broken [i ..< stop + 1]
        | None \<Rightarrow>
            map broken [i ..< n - 1]
              @ [WithRestOfLine ops
                   (wrap_line ops elt_layouts sep_layout prefix_layout i (n - 1))
                   rest_of_line])"

section \<open>JoinedLineBlock\<close>

text \<open>The loop \<^verbatim>\<open>for element in self.elements[:-1]\<close> of \<open>CompositeOptLayout\<close>.\<close>

fun joined_loop :: "block list \<Rightarrow> block \<Rightarrow> bool \<Rightarrow> block list \<Rightarrow> block list" where
  "joined_loop [] joiner join_breaking joined = joined"
| "joined_loop (element # elements) joiner join_breaking joined =
     joined_loop elements joiner join_breaking
       (if \<not> is_breaking element \<or> join_breaking
        then (joined @ [element]) @ [joiner] else joined @ [element])"

text \<open>
  \<open>JoinedLineBlock.CompositeOptLayout\<close>. The list \<open>filtered\<close> is the local variable
  \<open>elements\<close> of the source, the elements other than empty text blocks; nothing reads it.
  The new \<open>LineBlock\<close> is solved through its \<open>OptLayout\<close>.
\<close>

definition JoinedLineBlock_CompositeOptLayout ::
  "opt_layout \<Rightarrow> block list \<Rightarrow> string + block \<Rightarrow> bool \<Rightarrow> solution option \<Rightarrow> options
     \<Rightarrow> error + solution" where
  "JoinedLineBlock_CompositeOptLayout OL elements joiner join_breaking rest_of_line opts =
    (let joiner_block = (case joiner of Inl text \<Rightarrow> TextBlock text False | Inr b \<Rightarrow> b);
         filtered = filter (\<lambda>e. \<not> (case e of TextBlock text b \<Rightarrow> text = [] | _ \<Rightarrow> False))
                      elements
     in if elements = [] then Inl IndexError
        else
          (case new_LineBlock
                  (map IsBlock (joined_loop (butlast elements) joiner_block join_breaking []
                                  @ [last elements])) of
             Inl e \<Rightarrow> Inl e
           | Inr block \<Rightarrow> OL block rest_of_line opts))"

text \<open>\<open>CompositeShortcutMixin.DoOptLayout\<close>, which \<open>JoinedLineBlock\<close> inherits.\<close>

definition JoinedLineBlock_DoOptLayout ::
  "opt_layout \<Rightarrow> block list \<Rightarrow> string + block \<Rightarrow> bool \<Rightarrow> solution option \<Rightarrow> options
     \<Rightarrow> error + solution" where
  "JoinedLineBlock_DoOptLayout OL elements joiner join_breaking rest_of_line opts =
    (if elements = [] then OL (TextBlock [] False) rest_of_line opts
     else if length elements = 1 then OL (elements ! 0) rest_of_line opts
     else JoinedLineBlock_CompositeOptLayout OL elements joiner join_breaking rest_of_line opts)"

text \<open>
  The joined list in closed form: every element but the last, followed by the joiner when
  the element is not breaking or \<open>join_breaking\<close> is set; then the last element.
\<close>

definition joined_spec :: "block list \<Rightarrow> block \<Rightarrow> bool \<Rightarrow> block list" where
  "joined_spec elements joiner join_breaking =
     concat (map (\<lambda>e. if \<not> is_breaking e \<or> join_breaking then [e, joiner] else [e])
               (butlast elements))
       @ [last elements]"

section \<open>VerbBlock\<close>

text \<open>The layout built by the \<^verbatim>\<open>for i, ln in enumerate(self.lines)\<close> loop.\<close>

fun verb_elts :: "nat \<Rightarrow> bool \<Rightarrow> string list \<Rightarrow> Layout" where
  "verb_elts i first_nl [] = []"
| "verb_elts i first_nl (line # lines) =
     (if i > 0 \<or> first_nl then [NewLine 0] else [])
       @ [String line] @ verb_elts (Suc i) first_nl lines"

definition VerbBlock_DoOptLayout ::
  "string list \<Rightarrow> bool \<Rightarrow> solution option \<Rightarrow> options \<Rightarrow> error + solution" where
  "VerbBlock_DoOptLayout lines first_nl rest_of_line opts =
    (let layout = verb_elts 0 first_nl lines;
         span = 0;
         sf = SolutionFactory
     in (case (if margin_0 opts > 0 then Append sf 0 span 0 0 layout else Inr sf) of
          Inl e \<Rightarrow> Inl e
        | Inr sf1 \<Rightarrow>
        (case Append sf1 (margin_0 opts - span) span 0 (margin_0_cost opts) layout of
          Inl e \<Rightarrow> Inl e
        | Inr sf2 \<Rightarrow>
        (case Append sf2 (margin_1 opts - span) span
               (real_of_int (margin_1 opts - margin_0 opts) * margin_0_cost opts)
               (margin_0_cost opts + margin_1_cost opts) layout of
          Inl e \<Rightarrow> Inl e
        | Inr sf3 \<Rightarrow> Inr (MkSolution sf3 opts)))))"

section \<open>Dispatch and rendering\<close>

text \<open>
  The method \<open>DoOptLayout\<close> of a block, by its class. A composite block calls
  \<open>OptLayout\<close> of other blocks, which on a cache that has no entry for the continuation
  calls their \<open>DoOptLayout\<close> in turn. The hook \<open>break_element_lines\<close> may return any
  blocks, so the nesting of these calls is not bounded by the block: the first argument
  bounds it, as the interpreter's recursion limit does, and a call beyond the bound is a
  \<open>RecursionError\<close>.
\<close>

primrec DoOptLayout ::
  "nat \<Rightarrow> support \<Rightarrow> block \<Rightarrow> solution option \<Rightarrow> options \<Rightarrow> error + solution" where
  "DoOptLayout 0 ops self rest_of_line opts = Inl RecursionError"
| "DoOptLayout (Suc depth) ops self rest_of_line opts =
     (case self of
        TextBlock text b \<Rightarrow> Inr (TextBlock_DoOptLayout ops text rest_of_line opts)
      | VerbBlock lines b first_nl \<Rightarrow> VerbBlock_DoOptLayout lines first_nl rest_of_line opts
      | LineBlock elements \<Rightarrow>
          LineBlock_DoOptLayout ops (DoOptLayout depth ops) elements rest_of_line opts
      | ChoiceBlock elements \<Rightarrow>
          ChoiceBlock_DoOptLayout ops (DoOptLayout depth ops) elements rest_of_line opts
      | StackBlock elements break_mult \<Rightarrow>
          StackBlock_DoOptLayout ops (DoOptLayout depth ops) elements break_mult rest_of_line opts
      | WrapBlock elements sep break_mult prefix \<Rightarrow>
          WrapBlock_DoOptLayout ops (DoOptLayout depth ops) elements sep break_mult prefix
            rest_of_line opts
      | JoinedLineBlock elements joiner join_breaking \<Rightarrow>
          JoinedLineBlock_DoOptLayout (DoOptLayout depth ops) elements joiner join_breaking
            rest_of_line opts)"

text \<open>
  \<open>LayoutBlock.PrintOn\<close> and \<open>Render\<close>: the text written to the stream. A \<open>Solution\<close>
  object is true, so the branch \<^verbatim>\<open>if soln:\<close> is taken; \<open>soln.layouts[0]\<close> on an empty
  list is an \<open>IndexError\<close>.
\<close>

definition PrintOn :: "nat \<Rightarrow> support \<Rightarrow> block \<Rightarrow> options \<Rightarrow> error + string" where
  "PrintOn depth ops self opts =
    (case DoOptLayout depth ops self None opts of Inl e \<Rightarrow> Inl e
     | Inr soln \<Rightarrow>
         if layouts soln = [] then Inl IndexError else Inr (PrintLayout (layouts soln ! 0)))"

definition Render :: "nat \<Rightarrow> support \<Rightarrow> block \<Rightarrow> options \<Rightarrow> error + string" where
  "Render depth ops self opts = PrintOn depth ops self opts"

section \<open>Memoisation\<close>



section \<open>Auxiliary definitions\<close>

text \<open>
  These serve the proofs. \<open>glue\<close> appends the first of a list of lines to a line under
  construction.
\<close>

fun glue :: "'a list \<Rightarrow> 'a list list \<Rightarrow> 'a list list" where
  "glue l [] = [l]"
| "glue l (x # xs) = (l @ x) # xs"

text \<open>
  \<open>wrap_broken\<close> is the candidate that breaks the line after element \<open>j\<close>;
  \<open>wrap_candidates_from\<close> lists the candidates the inner loop of \<open>WrapBlock\<close> still has
  to append when it stands at \<open>j\<close>.
\<close>

definition wrap_broken ::
  "support \<Rightarrow> options \<Rightarrow> nat \<Rightarrow> solution list \<Rightarrow> solution \<Rightarrow> solution option
     \<Rightarrow> real \<Rightarrow> (nat \<Rightarrow> solution) \<Rightarrow> nat \<Rightarrow> nat \<Rightarrow> solution" where
  "wrap_broken ops opts n elt_layouts sep_layout prefix_layout break_mult wrap i j =
     PlusConst
       (vsum ops [wrap_line ops elt_layouts sep_layout prefix_layout i j, wrap (j + 1)] opts)
       (break_cost opts * break_mult + late_pack_cost opts * real_of_int (int n - int j))"

definition wrap_candidates_from ::
  "support \<Rightarrow> options \<Rightarrow> block list \<Rightarrow> solution list \<Rightarrow> solution \<Rightarrow> solution option
     \<Rightarrow> real \<Rightarrow> solution option \<Rightarrow> (nat \<Rightarrow> solution) \<Rightarrow> nat \<Rightarrow> nat \<Rightarrow> solution list" where
  "wrap_candidates_from ops opts elements elt_layouts sep_layout prefix_layout break_mult
      rest_of_line wrap i j =
    (let n = length elements;
         broken = wrap_broken ops opts n elt_layouts sep_layout prefix_layout break_mult wrap i
     in case List.find (\<lambda>k. is_breaking (elements ! k)) [j ..< n - 1] of
          Some stop \<Rightarrow> map broken [j ..< stop + 1]
        | None \<Rightarrow>
            map broken [j ..< n - 1]
              @ [WithRestOfLine ops
                   (wrap_line ops elt_layouts sep_layout prefix_layout i (n - 1))
                   rest_of_line])"

text \<open>
  \<open>extends OL OL'\<close>: wherever \<open>OL\<close> returns a solution, \<open>OL'\<close> returns the same one.
\<close>

definition extends :: "opt_layout \<Rightarrow> opt_layout \<Rightarrow> bool" where
  "extends OL OL' = (\<forall>b r opts s. OL b r opts = Inr s \<longrightarrow> OL' b r opts = Inr s)"

section \<open>An instance of the parameters\<close>

text \<open>
  Modelled from the spec: reading a solution at a starting column \<open>k\<close> (3.4). The segment
  of \<open>k\<close> is the last one whose knot is at most \<open>k\<close>; the cost there is
  \<open>cost_at_knot[i] + slope[i] * (k - knot[i])\<close>.
\<close>

definition index_at :: "solution \<Rightarrow> int \<Rightarrow> nat" where
  "index_at s k = length (takeWhile (\<lambda>x. x \<le> k) (knots s)) - 1"

definition value_at :: "solution \<Rightarrow> int \<Rightarrow> real" where
  "value_at s k =
     costs s ! index_at s k + slopes s ! index_at s k * real_of_int (k - knots s ! index_at s k)"

definition slope_at :: "solution \<Rightarrow> int \<Rightarrow> real" where
  "slope_at s k = slopes s ! index_at s k"

definition span_at :: "solution \<Rightarrow> int \<Rightarrow> int" where
  "span_at s k = spans s ! index_at s k"

definition layout_at :: "solution \<Rightarrow> int \<Rightarrow> Layout" where
  "layout_at s k = layouts s ! index_at s k"

text \<open>
  Modelled from the spec: horizontal composition (4.1). The knots of the result are the
  knots of \<open>self\<close> and the knots of \<open>rest\<close> shifted left by the span of the segment of
  \<open>self\<close> they fall in; at each knot \<open>k\<close> the cost is
  \<open>self.cost + rest.cost_at(k + self.span)\<close>, and likewise the slope, the span and the
  layout.
\<close>

definition shifted_knots :: "solution \<Rightarrow> solution \<Rightarrow> int list" where
  "shifted_knots self rest =
     concat (map (\<lambda>i.
        filter (\<lambda>k. knots self ! i < k \<and> (length (knots self) \<le> Suc i \<or> k < knots self ! Suc i))
          (map (\<lambda>kr. kr - spans self ! i) (knots rest)))
       [0 ..< length (knots self)])"

definition compose_at :: "solution \<Rightarrow> solution \<Rightarrow> int list \<Rightarrow> solution" where
  "compose_at self rest ks =
     \<lparr>knots = ks,
      spans = map (\<lambda>k. span_at self k + span_at rest (k + span_at self k)) ks,
      costs = map (\<lambda>k. value_at self k + value_at rest (k + span_at self k)) ks,
      slopes = map (\<lambda>k. slope_at self k + slope_at rest (k + span_at self k)) ks,
      layouts = map (\<lambda>k. layout_at self k @ layout_at rest (k + span_at self k)) ks\<rparr>"

definition horizontal :: "solution \<Rightarrow> solution \<Rightarrow> solution" where
  "horizontal self rest =
     compose_at self rest (sort (remdups (knots self @ shifted_knots self rest)))"

text \<open>
  Modelled from the spec: vertical sum (4.1). The knots and slopes are those of the first
  solution; every later solution starts at column 0 and adds its cost there; the span is
  that of the last solution at column 0; the layouts are joined by newlines.
\<close>

definition vertical :: "solution list \<Rightarrow> solution" where
  "vertical ss =
     \<lparr>knots = knots (hd ss),
      spans = map (\<lambda>k. span_at (last ss) 0) (knots (hd ss)),
      costs = map (\<lambda>c. c + sum_list (map (\<lambda>s. value_at s 0) (tl ss))) (costs (hd ss)),
      slopes = slopes (hd ss),
      layouts = map (\<lambda>l. l @ concat (map (\<lambda>s. NewLine 0 # layout_at s 0) (tl ss)))
                  (layouts (hd ss))\<rparr>"

text \<open>
  The theorems hold for every implementation of the three parameters. To apply them to
  concrete blocks one implementation has to be named: horizontal composition and vertical
  sum as above; the lower envelope is simplified to the candidate that is cheapest at
  column 0, the earlier one on a tie.
\<close>

definition simple_support :: support where
  "simple_support =
     \<lparr>hcompose = horizontal,
      vsum = (\<lambda>ss opts. vertical ss),
      min_envelope = (\<lambda>ss opts.
        fold (\<lambda>s best. if value_at s 0 < value_at best 0 then s else best) (tl ss) (hd ss))\<rparr>"

definition default_options :: options where
  "default_options =
     \<lparr>margin_0 = 0, margin_0_cost = 5 / 100, margin_1 = 80, margin_1_cost = 100,
      break_cost = 2, late_pack_cost = 1 / 1000, break_element_lines = None\<rparr>"

text \<open>
  Options with a hook that merges all element-lines into one, and the solutions of text
  blocks under the instance above.
\<close>

definition merging_options :: options where
  "merging_options = default_options\<lparr>break_element_lines := Some (\<lambda>lines. [concat lines])\<rparr>"

definition text_solution :: "options \<Rightarrow> block \<Rightarrow> solution option \<Rightarrow> solution" where
  "text_solution opts b rest =
     (case b of TextBlock text brk \<Rightarrow> TextBlock_DoOptLayout simple_support text rest opts
      | _ \<Rightarrow> TextBlock_DoOptLayout simple_support [] rest opts)"

section \<open>Results\<close>

subsection \<open>Options\<close>

text \<open>
  C7 (as stated, refuted). \<open>Options(margin_0_cost=float('nan'))\<close>, the other fields at
  their defaults: the assertion \<open>margin_0_cost >= 0\<close> fails and construction raises
  \<open>ValueError\<close>, although no margin and no cost is below its bound.
\<close>

theorem Options_nan_cost_raises:
  "Options 0 NaN 80 (Finite 100) (Finite 2) (Finite (1 / 1000)) None
     = Inl (ValueError ''Illegal option value for 'margin_0_cost' '') \<and>
   \<not> ((0 :: int) < 0 \<or> (80 :: int) < 0 \<or> float_lt_zero NaN \<or> float_lt_zero (Finite 100)
        \<or> float_lt_zero (Finite 2) \<or> float_lt_zero (Finite (1 / 1000)))"
  by (simp add: Options_def Check_def float_ge_zero_def float_lt_zero_def)

text \<open>
  C7 (amended). Constructing an \<open>Options\<close> value raises exactly when one of the six
  assertions of \<open>Check\<close> fails: \<open>margin_0 < 0\<close>, or \<open>margin_1 < margin_0\<close>, or one of
  the four costs is negative or NaN. Otherwise construction returns the value with the
  fields as given.
\<close>

theorem Options_raises_iff:
  "((\<exists>e. Options m0 m0c m1 m1c bc lpc hook = Inl e) =
      (m0 < 0 \<or> m1 < m0
       \<or> float_lt_zero m0c \<or> m0c = NaN \<or> float_lt_zero m1c \<or> m1c = NaN
       \<or> float_lt_zero bc \<or> bc = NaN \<or> float_lt_zero lpc \<or> lpc = NaN)) \<and>
   ((\<exists>e. Options m0 m0c m1 m1c bc lpc hook = Inl e) \<or>
      Options m0 m0c m1 m1c bc lpc hook =
        Inr \<lparr>margin_0 = m0, margin_0_cost = m0c, margin_1 = m1, margin_1_cost = m1c,
             break_cost = bc, late_pack_cost = lpc, break_element_lines = hook\<rparr>)"
proof -
  have neg: "(\<not> float_ge_zero x) = (float_lt_zero x \<or> x = NaN)" for x
    by (cases x) (auto simp: float_ge_zero_def float_lt_zero_def)
  show ?thesis
    by (auto simp: Options_def Check_def Let_def neg split: sum.splits if_splits)
qed

subsection \<open>TextBlock\<close>

text \<open>
  C1. For a text at least \<open>margin_1\<close> long the spec gives the cost at the single knot as
  \<open>(len - margin_0) * margin_0_cost + (len - margin_1) * margin_1_cost\<close>. The source
  multiplies the second term by \<open>margin_1\<close> instead: for the text \<open>abc\<close> under
  \<open>Options(margin_1=2)\<close> it returns one knot at 0 with slope \<open>0.05 + 100\<close>, as
  specified, but cost \<open>3 * 0.05 + 1 * 2 = 2.15\<close> where the formula of the spec gives
  \<open>3 * 0.05 + 1 * 100 = 100.15\<close>.
\<close>

theorem TextBlock_one_knot_cost_uses_margin_1:
  "Options 0 (Finite (5 / 100)) 2 (Finite 100) (Finite 2) (Finite (1 / 1000)) None =
     Inr (finite_options
       \<lparr>margin_0 = 0, margin_0_cost = 5 / 100, margin_1 = 2, margin_1_cost = 100,
        break_cost = 2, late_pack_cost = 1 / 1000, break_element_lines = None\<rparr>) \<and>
   TextBlock_DoOptLayout ops ''abc'' None
       \<lparr>margin_0 = 0, margin_0_cost = 5 / 100, margin_1 = 2, margin_1_cost = 100,
        break_cost = 2, late_pack_cost = 1 / 1000, break_element_lines = None\<rparr> =
     \<lparr>knots = [0], spans = [3], costs = [215 / 100], slopes = [5 / 100 + 100],
      layouts = [[String ''abc'']]\<rparr> \<and>
   real_of_int (int (length ''abc'') - 0) * (5 / 100)
     + real_of_int (int (length ''abc'') - 2) * 100 = (10015 / 100 :: real)"
  by (simp add: Options_def Check_def Let_def TextBlock_DoOptLayout_def Solution_def
        WithRestOfLine_def finite_options_def float_ge_zero_def)

text \<open>
  The branch for a text between the two margins agrees with the formula of the spec: on its
  last segment, where the text ends at column \<open>e = k + len\<close> past \<open>margin_1\<close>, the cost
  is \<open>(e - margin_0) * margin_0_cost + (e - margin_1) * margin_1_cost\<close>.
\<close>

lemma TextBlock_two_knots_last_segment:
  assumes "margin_0 opts \<le> int (length text)" and "int (length text) < margin_1 opts"
  shows "costs (TextBlock_DoOptLayout ops text None opts) ! 1
           + slopes (TextBlock_DoOptLayout ops text None opts) ! 1
               * real_of_int (k - knots (TextBlock_DoOptLayout ops text None opts) ! 1)
         = real_of_int (k + int (length text) - margin_0 opts) * margin_0_cost opts
           + real_of_int (k + int (length text) - margin_1 opts) * margin_1_cost opts"
  using assms
  by (simp add: TextBlock_DoOptLayout_def Solution_def WithRestOfLine_def Let_def algebra_simps)

subsection \<open>Construction\<close>

text \<open>
  C2 (as stated, refuted). A \<open>LineBlock\<close> built from the single element \<open>3\<close>, which is
  not a block, raises \<open>TypeError\<close>, not \<open>BlockUsageError\<close>.
\<close>

theorem non_block_child_raises_TypeError:
  "new_LineBlock [NotBlock ''3''] = Inl (TypeError ''3 is not a LayoutBlock'') \<and>
   new_LineBlock [NotBlock ''3''] \<noteq> Inl BlockUsageError"
  by (simp add: new_LineBlock_def CompositeLayoutBlock_init_def)

lemma check_elements_all_blocks:
  "list_all is_block es \<Longrightarrow> \<exists>bs. check_elements es = Inr bs"
proof (induction es)
  case Nil
  show ?case by simp
next
  case (Cons x xs)
  then obtain bs where "check_elements xs = Inr bs" by auto
  with Cons.prems show ?case by (cases x) auto
qed

lemma check_elements_non_block:
  "\<not> list_all is_block es \<Longrightarrow> \<exists>m. check_elements es = Inl (TypeError m)"
proof (induction es rule: check_elements.induct)
  case 1
  then show ?case by simp
next
  case (2 r es)
  show ?case by simp
next
  case (3 b es)
  then show ?case by auto
qed

text \<open>
  C2 (amended). For each of the five composite kinds, construction from no elements raises
  \<open>BlockUsageError\<close>; construction from a non-empty list with an element that is not a
  block raises \<open>TypeError\<close>; construction from a non-empty list of blocks succeeds. The
  errors are results of the constructor: no layout function is involved.
\<close>

theorem composite_construction_errors:
  assumes "mk \<in> set (composite_constructors break_mult sep prefix joiner join_breaking)"
  shows "mk [] = Inl BlockUsageError \<and>
         (elements \<noteq> [] \<and> \<not> list_all is_block elements
            \<longrightarrow> (\<exists>m. mk elements = Inl (TypeError m))) \<and>
         (elements \<noteq> [] \<and> list_all is_block elements \<longrightarrow> (\<exists>b. mk elements = Inr b))"
proof -
  have init_empty: "CompositeLayoutBlock_init [] = Inl BlockUsageError"
    by (simp add: CompositeLayoutBlock_init_def)
  have init_bad: "\<exists>m. CompositeLayoutBlock_init elements = Inl (TypeError m)"
    if "elements \<noteq> []" "\<not> list_all is_block elements"
    using that check_elements_non_block [of elements]
    by (simp add: CompositeLayoutBlock_init_def)
  have init_good: "\<exists>bs. CompositeLayoutBlock_init elements = Inr bs"
    if "elements \<noteq> []" "list_all is_block elements"
    using that check_elements_all_blocks [of elements]
    by (simp add: CompositeLayoutBlock_init_def)
  from assms have mk_cases:
    "mk = new_LineBlock \<or> mk = (\<lambda>es. new_StackBlock es break_mult) \<or> mk = new_ChoiceBlock
     \<or> mk = (\<lambda>es. new_WrapBlock es sep break_mult prefix)
     \<or> mk = (\<lambda>es. new_JoinedLineBlock es joiner join_breaking)"
    by (simp add: composite_constructors_def)
  have empty: "mk [] = Inl BlockUsageError"
    using mk_cases init_empty
    by (auto simp: new_LineBlock_def new_StackBlock_def new_ChoiceBlock_def
          new_WrapBlock_def new_JoinedLineBlock_def)
  have bad: "\<exists>m. mk elements = Inl (TypeError m)"
    if "elements \<noteq> []" "\<not> list_all is_block elements"
    using mk_cases init_bad [OF that]
    by (auto simp: new_LineBlock_def new_StackBlock_def new_ChoiceBlock_def
          new_WrapBlock_def new_JoinedLineBlock_def)
  have good: "\<exists>b. mk elements = Inr b"
    if "elements \<noteq> []" "list_all is_block elements"
    using mk_cases init_good [OF that]
    by (auto simp: new_LineBlock_def new_StackBlock_def new_ChoiceBlock_def
          new_WrapBlock_def new_JoinedLineBlock_def)
  from empty bad good show ?thesis by blast
qed

text \<open>
  The amended statement at the constructor of \<open>WrapBlock\<close>: no elements, then the
  elements \<open>3\<close> and a text block, then a text block alone.
\<close>

theorem composite_construction_errors_witness:
  "new_WrapBlock [] '' '' 1 None = Inl BlockUsageError \<and>
   (\<exists>m. new_WrapBlock [NotBlock ''3'', IsBlock (TextBlock ''a'' False)] '' '' 1 None
          = Inl (TypeError m)) \<and>
   (\<exists>b. new_WrapBlock [IsBlock (TextBlock ''a'' False)] '' '' 1 None = Inr b)"
proof -
  have mem: "(\<lambda>es. new_WrapBlock es '' '' 1 None)
      \<in> set (composite_constructors 1 '' '' None (Inl '' '') False)"
    by (simp add: composite_constructors_def)
  show ?thesis
    using composite_construction_errors [OF mem, of "[NotBlock ''3'', IsBlock (TextBlock ''a'' False)]"]
      composite_construction_errors [OF mem, of "[IsBlock (TextBlock ''a'' False)]"]
    by simp
qed

subsection \<open>StackBlock\<close>

lemma mapE_total:
  "\<forall>x\<in>set xs. f x = Inr (g x) \<Longrightarrow> mapE f xs = Inr (map g xs)"
  by (induction xs) auto

text \<open>
  C5. For a \<open>StackBlock\<close> with \<open>n \<ge> 1\<close> children whose \<open>OptLayout\<close> calls return the
  solutions \<open>sol child continuation\<close>, \<open>DoOptLayout\<close> returns the vertical sum of the
  children's solutions, every child but the last solved with continuation \<open>None\<close> and the
  last with \<open>rest_of_line\<close>, plus the constant \<open>break_cost * break_mult * max(0, n - 1)\<close>.
\<close>

theorem StackBlock_vertical_sum:
  assumes "elements \<noteq> []"
    and "\<forall>e\<in>set elements. \<forall>r. OL e r opts = Inr (sol e r)"
  shows "StackBlock_DoOptLayout ops OL elements break_mult rest_of_line opts =
           Inr (PlusConst
                  (vsum ops (map (\<lambda>e. sol e None) (butlast elements)
                               @ [sol (last elements) rest_of_line]) opts)
                  (break_cost opts * break_mult
                     * real_of_int (max 0 (int (length elements) - 1))))"
proof -
  have "\<forall>e\<in>set (butlast elements). OL e None opts = Inr (sol e None)"
    using assms(2) by (auto dest: in_set_butlastD)
  then have firsts: "mapE (\<lambda>e. OL e None opts) (butlast elements)
      = Inr (map (\<lambda>e. sol e None) (butlast elements))"
    by (rule mapE_total)
  have final: "OL (last elements) rest_of_line opts = Inr (sol (last elements) rest_of_line)"
    using assms by simp
  show ?thesis
    using assms(1) by (simp add: StackBlock_DoOptLayout_def firsts final VSumSolution_def max.commute)
qed

theorem StackBlock_vertical_sum_witness:
  "StackBlock_DoOptLayout simple_support
     (\<lambda>b r opts. Inr (TextBlock_DoOptLayout simple_support ''hello'' r opts))
     [TextBlock ''hello'' False, TextBlock ''hello'' False] 1 None default_options =
   Inr (PlusConst
          (vsum simple_support
             [TextBlock_DoOptLayout simple_support ''hello'' None default_options,
              TextBlock_DoOptLayout simple_support ''hello'' None default_options] default_options)
          2)"
  using StackBlock_vertical_sum [of "[TextBlock ''hello'' False, TextBlock ''hello'' False]"
      "\<lambda>b r opts. Inr (TextBlock_DoOptLayout simple_support ''hello'' r opts)" default_options
      "\<lambda>b r. TextBlock_DoOptLayout simple_support ''hello'' r default_options"
      simple_support 1 None]
  by (simp add: default_options_def)

subsection \<open>VerbBlock\<close>

text \<open>
  C9. For every \<open>VerbBlock\<close>, every options value and every continuation,
  \<open>DoOptLayout\<close> returns what it returns for the continuation \<open>None\<close>: the same knots,
  spans, costs, slopes and layouts (or the same abort of the factory). The continuation
  takes no part in the result.
\<close>

theorem VerbBlock_ignores_continuation:
  "VerbBlock_DoOptLayout lines first_nl rest_of_line opts
     = VerbBlock_DoOptLayout lines first_nl None opts"
  by (simp add: VerbBlock_DoOptLayout_def)

subsection \<open>Memoisation\<close>



subsection \<open>LineBlock\<close>

lemma element_lines_spec_nonempty: "element_lines_spec es \<noteq> []"
  by (induction es rule: element_lines_spec.induct) (auto split: list.splits)

lemma build_element_lines_spec:
  "element_lines \<noteq> [] \<Longrightarrow> n = i + length es \<Longrightarrow>
   build_element_lines n i es element_lines
     = butlast element_lines @ glue (last element_lines) (element_lines_spec es)"
proof (induction es arbitrary: i element_lines)
  case Nil
  then show ?case by simp
next
  case (Cons e es)
  show ?case
  proof (cases es)
    case Nil
    with Cons.prems show ?thesis by (simp add: Let_def)
  next
    case (Cons e' es')
    obtain l ls where sp: "element_lines_spec (e' # es') = l # ls"
      using element_lines_spec_nonempty [of "e' # es'"] by (cases "element_lines_spec (e' # es')") auto
    have n: "n = Suc i + length es" using Cons.prems by simp
    have i: "int i < int n - 1" using n Cons by simp
    let ?A = "butlast element_lines @ [last element_lines @ [e]]"
    show ?thesis
    proof (cases "is_breaking e")
      case True
      have step: "build_element_lines n i (e # es) element_lines
          = build_element_lines n (Suc i) es (?A @ [[]])"
        using True i by (simp add: Let_def)
      have "build_element_lines n (Suc i) es (?A @ [[]])
        = butlast (?A @ [[]]) @ glue (last (?A @ [[]])) (element_lines_spec es)"
        by (rule Cons.IH) (use n in auto)
      also have "\<dots> = butlast element_lines @ glue (last element_lines) (element_lines_spec (e # es))"
        using True Cons sp by (simp add: butlast_append)
      finally show ?thesis using step by simp
    next
      case False
      have step: "build_element_lines n i (e # es) element_lines
          = build_element_lines n (Suc i) es ?A"
        using False by (simp add: Let_def)
      have "build_element_lines n (Suc i) es ?A
        = butlast ?A @ glue (last ?A) (element_lines_spec es)"
        by (rule Cons.IH) (use n in auto)
      also have "\<dots> = butlast element_lines @ glue (last element_lines) (element_lines_spec (e # es))"
        using False Cons sp by simp
      finally show ?thesis using step by simp
    qed
  qed
qed

lemma build_element_lines_initial:
  "build_element_lines (length es) 0 es [[]] = element_lines_spec es"
  using build_element_lines_spec [of "[[]]" "length es" 0 es]
  by (cases "element_lines_spec es") (auto simp: element_lines_spec_nonempty)

lemma fold_line_total:
  "\<forall>e\<in>set line. \<forall>r. OL e r opts = Inr (sol e r) \<Longrightarrow>
   fold_line OL opts line acc = Inr (fold_right_spec sol (rev line) acc)"
proof (induction line arbitrary: acc)
  case Nil show ?case by simp
next
  case (Cons e es)
  have aux: "fold_right_spec sol (xs @ [x]) a = fold_right_spec sol xs (Some (sol x a))" for xs x a
    by (induction xs) auto
  from Cons show ?case by (simp add: aux)
qed

lemma solve_lines_total:
  "\<forall>line\<in>set lines. \<forall>e\<in>set line. \<forall>r. OL e r opts = Inr (sol e r) \<Longrightarrow>
   n = i + length lines \<Longrightarrow> lines \<noteq> [] \<Longrightarrow>
   solve_lines OL opts n i lines rest = Inr (line_solutions_spec sol lines rest)"
proof (induction lines arbitrary: i)
  case Nil then show ?case by simp
next
  case (Cons l ls)
  have fl: "fold_line OL opts (rev l) acc = Inr (fold_right_spec sol l acc)" for acc
    using fold_line_total [of "rev l" OL opts sol acc] Cons.prems(1) by simp
  show ?case
  proof (cases ls)
    case Nil
    with Cons.prems show ?thesis by (simp add: fl line_solutions_spec_def)
  next
    case (Cons l' ls')
    have "solve_lines OL opts n (Suc i) ls rest = Inr (line_solutions_spec sol ls rest)"
      by (rule Cons.IH) (use Cons.prems Cons in auto)
    with Cons Cons.prems show ?thesis by (simp add: fl line_solutions_spec_def)
  qed
qed

lemma element_lines_spec_concat: "concat (element_lines_spec es) = es"
  by (induction es rule: element_lines_spec.induct)
    (auto split: list.splits simp: element_lines_spec_nonempty)

lemma element_lines_spec_lines_nonempty:
  "es \<noteq> [] \<Longrightarrow> line \<in> set (element_lines_spec es) \<Longrightarrow> line \<noteq> []"
  by (induction es arbitrary: line rule: element_lines_spec.induct)
    (auto split: list.splits if_splits simp: element_lines_spec_nonempty)


lemma fold_right_spec_nonempty:
  "line \<noteq> [] \<Longrightarrow> \<exists>y. fold_right_spec sol line acc = Some y"
  by (cases line) auto

lemma line_solutions_spec_present:
  assumes "lines \<noteq> []" and "[] \<notin> set lines"
  shows "list_all (\<lambda>s. s \<noteq> None) (line_solutions_spec sol lines rest)"
proof -
  have "last lines \<noteq> []" using assms by (metis last_in_set)
  then have final: "\<exists>y. fold_right_spec sol (last lines) rest = Some y"
    by (rule fold_right_spec_nonempty)
  have "\<exists>y. fold_right_spec sol line None = Some y" if "line \<in> set (butlast lines)" for line
  proof -
    from that have "line \<in> set lines" by (rule in_set_butlastD)
    with assms(2) have "line \<noteq> []" by auto
    then show ?thesis by (rule fold_right_spec_nonempty)
  qed
  with final show ?thesis
    by (auto simp: line_solutions_spec_def list_all_iff)
qed

lemma map_filter_id_present:
  "list_all (\<lambda>s. s \<noteq> None) xs \<Longrightarrow> List.map_filter id xs = map the xs"
  by (induction xs) auto

lemma LineBlock_DoOptLayout_lines:
  assumes "elements \<noteq> []"
    and "lines = element_lines_used opts elements"
    and "\<forall>line\<in>set lines. \<forall>e\<in>set line. \<forall>r. OL e r opts = Inr (sol e r)"
  shows "LineBlock_DoOptLayout ops OL elements rest_of_line opts =
           (if lines = [] then Inl AttributeError
            else case VSumSolution ops
                        (List.map_filter id (line_solutions_spec sol lines rest_of_line)) opts of
                   None \<Rightarrow> Inl AttributeError
                 | Some v \<Rightarrow>
                     Inr (PlusConst v
                            (break_cost opts * real_of_int (int (length lines) - 1))))"
proof -
  have used: "(if length (element_lines_spec elements) > 1
        then (case break_element_lines opts of
                Some hook \<Rightarrow> hook (element_lines_spec elements)
              | None \<Rightarrow> element_lines_spec elements)
        else element_lines_spec elements) = lines"
    using assms(2) by (simp add: element_lines_used_def)
  have unfolded: "LineBlock_DoOptLayout ops OL elements rest_of_line opts =
      (case solve_lines OL opts (length lines) 0 lines rest_of_line of
         Inl e \<Rightarrow> Inl e
       | Inr line_solns \<Rightarrow>
           (case VSumSolution ops (List.map_filter id line_solns) opts of
              None \<Rightarrow> Inl AttributeError
            | Some soln \<Rightarrow>
                Inr (PlusConst soln
                       (break_cost opts * real_of_int (int (length line_solns) - 1)))))"
    unfolding LineBlock_DoOptLayout_def Let_def build_element_lines_initial used
    using assms(1) by simp
  show ?thesis
  proof (cases "lines = []")
    case True
    with unfolded show ?thesis by (simp add: VSumSolution_def)
  next
    case False
    have solved: "solve_lines OL opts (length lines) 0 lines rest_of_line
        = Inr (line_solutions_spec sol lines rest_of_line)"
      using assms(3) False by (intro solve_lines_total) auto
    have len: "length (line_solutions_spec sol lines rest_of_line) = length lines"
      using False by (simp add: line_solutions_spec_def)
    from unfolded False show ?thesis by (simp add: solved len cong: option.case_cong)
  qed
qed

lemma LineBlock_DoOptLayout_full_lines:
  assumes "elements \<noteq> []"
    and "lines = element_lines_used opts elements"
    and "\<forall>line\<in>set lines. \<forall>e\<in>set line. \<forall>r. OL e r opts = Inr (sol e r)"
    and "lines \<noteq> []" and "[] \<notin> set lines"
  shows "LineBlock_DoOptLayout ops OL elements rest_of_line opts =
           Inr (PlusConst
                  (vsum ops (map the (line_solutions_spec sol lines rest_of_line)) opts)
                  (break_cost opts * real_of_int (int (length lines) - 1)))"
proof -
  have present: "list_all (\<lambda>s. s \<noteq> None) (line_solutions_spec sol lines rest_of_line)"
    using assms(4,5) by (rule line_solutions_spec_present)
  have nonnil: "map the (line_solutions_spec sol lines rest_of_line) \<noteq> []"
    by (simp add: line_solutions_spec_def)
  have "LineBlock_DoOptLayout ops OL elements rest_of_line opts =
           (if lines = [] then Inl AttributeError
            else case VSumSolution ops
                        (List.map_filter id (line_solutions_spec sol lines rest_of_line)) opts of
                   None \<Rightarrow> Inl AttributeError
                 | Some v \<Rightarrow>
                     Inr (PlusConst v
                            (break_cost opts * real_of_int (int (length lines) - 1))))"
    using assms(1,2,3)
    by (rule LineBlock_DoOptLayout_lines [where OL = OL and sol = sol])
  then show ?thesis
    using assms(4) nonnil
    by (simp add: map_filter_id_present [OF present] VSumSolution_def)
qed

lemma element_lines_spec_children:
  assumes "\<forall>e\<in>set elements. \<forall>r. OL e r opts = Inr (sol e r)"
  shows "\<forall>line\<in>set (element_lines_spec elements). \<forall>e\<in>set line. \<forall>r. OL e r opts = Inr (sol e r)"
proof (intro ballI allI)
  fix line e r assume "line \<in> set (element_lines_spec elements)" "e \<in> set line"
  then have "e \<in> set (concat (element_lines_spec elements))" by auto
  then have "e \<in> set elements" by (simp add: element_lines_spec_concat)
  with assms show "OL e r opts = Inr (sol e r)" by simp
qed

text \<open>
  C4 (amended). Let the children of a \<open>LineBlock\<close> return solutions. When the option
  \<open>break_element_lines\<close> is not set, or the split gives a single element-line,
  \<open>DoOptLayout\<close> splits the children into element-lines after each non-final breaking
  child, folds each element-line right to left through the children's \<open>OptLayout\<close>, the
  last line against \<open>rest_of_line\<close> and the earlier ones against \<open>None\<close>, and returns
  the vertical sum of the per-line solutions plus \<open>break_cost * (number of lines - 1)\<close>.
  When the hook is set and the split gives more than one element-line, the lines the hook
  returns, whatever the hook, take the place of the split: if none of them is empty the
  result is the same fold, sum and constant over them; in general an empty line
  contributes its continuation, the solutions that are present are summed, every returned
  line counts in the constant, and with nothing to sum the call raises.
\<close>

theorem LineBlock_lines_folded_and_summed:
  assumes "elements \<noteq> []"
  shows "((break_element_lines opts = None \<or> length (element_lines_spec elements) \<le> 1)
            \<and> (\<forall>e\<in>set elements. \<forall>r. OL e r opts = Inr (sol e r))
          \<longrightarrow> LineBlock_DoOptLayout ops OL elements rest_of_line opts =
                Inr (PlusConst
                       (vsum ops (map the (line_solutions_spec sol
                                    (element_lines_spec elements) rest_of_line)) opts)
                       (break_cost opts
                          * real_of_int (int (length (element_lines_spec elements)) - 1))))
       \<and> (\<forall>hook lines.
            break_element_lines opts = Some hook \<and> 1 < length (element_lines_spec elements)
              \<and> lines = hook (element_lines_spec elements)
              \<and> (\<forall>line\<in>set lines. \<forall>e\<in>set line. \<forall>r. OL e r opts = Inr (sol e r))
              \<and> lines \<noteq> [] \<and> [] \<notin> set lines
          \<longrightarrow> LineBlock_DoOptLayout ops OL elements rest_of_line opts =
                Inr (PlusConst
                       (vsum ops (map the (line_solutions_spec sol lines rest_of_line)) opts)
                       (break_cost opts * real_of_int (int (length lines) - 1))))
       \<and> (\<forall>hook lines.
            break_element_lines opts = Some hook \<and> 1 < length (element_lines_spec elements)
              \<and> lines = hook (element_lines_spec elements)
              \<and> (\<forall>line\<in>set lines. \<forall>e\<in>set line. \<forall>r. OL e r opts = Inr (sol e r))
          \<longrightarrow> LineBlock_DoOptLayout ops OL elements rest_of_line opts =
                (if lines = [] then Inl AttributeError
                 else case VSumSolution ops
                             (List.map_filter id (line_solutions_spec sol lines rest_of_line))
                             opts of
                        None \<Rightarrow> Inl AttributeError
                      | Some v \<Rightarrow>
                          Inr (PlusConst v
                                 (break_cost opts * real_of_int (int (length lines) - 1)))))"
proof (intro conjI impI allI)
  assume a: "(break_element_lines opts = None \<or> length (element_lines_spec elements) \<le> 1)
            \<and> (\<forall>e\<in>set elements. \<forall>r. OL e r opts = Inr (sol e r))"
  let ?lines = "element_lines_spec elements"
  have used: "?lines = element_lines_used opts elements"
    using a by (auto simp: element_lines_used_def)
  have children: "\<forall>line\<in>set ?lines. \<forall>e\<in>set line. \<forall>r. OL e r opts = Inr (sol e r)"
    using a by (intro element_lines_spec_children) simp
  have ne: "?lines \<noteq> []" by (rule element_lines_spec_nonempty)
  have no_empty: "[] \<notin> set ?lines"
    using element_lines_spec_lines_nonempty [OF assms] by blast
  show "LineBlock_DoOptLayout ops OL elements rest_of_line opts =
                Inr (PlusConst
                       (vsum ops (map the (line_solutions_spec sol ?lines rest_of_line)) opts)
                       (break_cost opts * real_of_int (int (length ?lines) - 1)))"
    using assms used children ne no_empty
    by (rule LineBlock_DoOptLayout_full_lines [where OL = OL and sol = sol])
next
  fix hook lines
  assume a: "break_element_lines opts = Some hook \<and> 1 < length (element_lines_spec elements)
              \<and> lines = hook (element_lines_spec elements)
              \<and> (\<forall>line\<in>set lines. \<forall>e\<in>set line. \<forall>r. OL e r opts = Inr (sol e r))
              \<and> lines \<noteq> [] \<and> [] \<notin> set lines"
  then have used: "lines = element_lines_used opts elements"
    by (simp add: element_lines_used_def)
  from a have children: "\<forall>line\<in>set lines. \<forall>e\<in>set line. \<forall>r. OL e r opts = Inr (sol e r)"
    and ne: "lines \<noteq> []" and no_empty: "[] \<notin> set lines"
    by blast+
  show "LineBlock_DoOptLayout ops OL elements rest_of_line opts =
                Inr (PlusConst
                       (vsum ops (map the (line_solutions_spec sol lines rest_of_line)) opts)
                       (break_cost opts * real_of_int (int (length lines) - 1)))"
    using assms used children ne no_empty
    by (rule LineBlock_DoOptLayout_full_lines [where OL = OL and sol = sol])
next
  fix hook lines
  assume a: "break_element_lines opts = Some hook \<and> 1 < length (element_lines_spec elements)
              \<and> lines = hook (element_lines_spec elements)
              \<and> (\<forall>line\<in>set lines. \<forall>e\<in>set line. \<forall>r. OL e r opts = Inr (sol e r))"
  then have used: "lines = element_lines_used opts elements"
    by (simp add: element_lines_used_def)
  from a have children: "\<forall>line\<in>set lines. \<forall>e\<in>set line. \<forall>r. OL e r opts = Inr (sol e r)"
    by blast
  show "LineBlock_DoOptLayout ops OL elements rest_of_line opts =
                (if lines = [] then Inl AttributeError
                 else case VSumSolution ops
                             (List.map_filter id (line_solutions_spec sol lines rest_of_line))
                             opts of
                        None \<Rightarrow> Inl AttributeError
                      | Some v \<Rightarrow>
                          Inr (PlusConst v
                                 (break_cost opts * real_of_int (int (length lines) - 1))))"
    using assms used children
    by (rule LineBlock_DoOptLayout_lines [where OL = OL and sol = sol])
qed

text \<open>
  The amended statement at the line of a breaking \<open>a\<close> and a \<open>b\<close>: under the default
  options, two element-lines and one break; under options whose hook merges the
  element-lines, the one line the hook returns and no break.
\<close>

theorem LineBlock_lines_folded_and_summed_witness:
  "LineBlock_DoOptLayout simple_support (DoOptLayout (Suc 0) simple_support)
       [TextBlock ''a'' True, TextBlock ''b'' False] None default_options
     = Inr (PlusConst
              (vsum simple_support
                 [TextBlock_DoOptLayout simple_support ''a'' None default_options,
                  TextBlock_DoOptLayout simple_support ''b'' None default_options]
                 default_options)
              2)
   \<and> LineBlock_DoOptLayout simple_support (DoOptLayout (Suc 0) simple_support)
       [TextBlock ''a'' True, TextBlock ''b'' False] None merging_options
     = Inr (PlusConst
              (vsum simple_support
                 [TextBlock_DoOptLayout simple_support ''a''
                    (Some (TextBlock_DoOptLayout simple_support ''b'' None merging_options))
                    merging_options]
                 merging_options)
              0)"
proof -
  let ?es = "[TextBlock ''a'' True, TextBlock ''b'' False]"
  have split: "element_lines_spec ?es = [[TextBlock ''a'' True], [TextBlock ''b'' False]]"
    by simp
  have plain: "LineBlock_DoOptLayout simple_support (DoOptLayout (Suc 0) simple_support)
       ?es None default_options
     = Inr (PlusConst
              (vsum simple_support
                 (map the (line_solutions_spec (text_solution default_options)
                    (element_lines_spec ?es) None))
                 default_options)
              (break_cost default_options
                 * real_of_int (int (length (element_lines_spec ?es)) - 1)))"
    using LineBlock_lines_folded_and_summed
      [where elements = ?es and opts = default_options
         and OL = "DoOptLayout (Suc 0) simple_support"
         and sol = "text_solution default_options" and ops = simple_support
         and rest_of_line = None]
    by (simp add: text_solution_def default_options_def)
  have hook: "break_element_lines merging_options = Some (\<lambda>lines. [concat lines])"
    by (simp add: merging_options_def)
  have merged: "LineBlock_DoOptLayout simple_support (DoOptLayout (Suc 0) simple_support)
       ?es None merging_options
     = Inr (PlusConst
              (vsum simple_support
                 (map the (line_solutions_spec (text_solution merging_options)
                    [[TextBlock ''a'' True, TextBlock ''b'' False]] None))
                 merging_options)
              (break_cost merging_options
                 * real_of_int (int (length [[TextBlock ''a'' True, TextBlock ''b'' False]]) - 1)))"
    using LineBlock_lines_folded_and_summed
      [where elements = ?es and opts = merging_options
         and OL = "DoOptLayout (Suc 0) simple_support"
         and sol = "text_solution merging_options" and ops = simple_support
         and rest_of_line = None]
    by (simp add: hook text_solution_def)
  from plain merged show ?thesis
    by (simp add: line_solutions_spec_def text_solution_def default_options_def)
qed

text \<open>
  C4 (as stated, refuted). With a hook \<open>break_element_lines\<close> that merges the
  element-lines, the line of a breaking \<open>a\<close> and a \<open>b\<close> is laid out as the single line
  \<open>ab\<close>, at cost \<open>0.05 + 2 * 0.05 = 0.15\<close> at column 0 and with no break cost. The
  split, folded and summed as stated, gives two lines at cost
  \<open>0.05 + 0.05 + 2 = 2.10\<close>.
\<close>

theorem LineBlock_hook_replaces_split:
  "LineBlock_DoOptLayout simple_support (DoOptLayout (Suc 0) simple_support)
       [TextBlock ''a'' True, TextBlock ''b'' False] None merging_options
     = Inr \<lparr>knots = [0, 78, 79], spans = [2, 2, 2],
            costs = [15 / 100, 795 / 100, 10805 / 100],
            slopes = [10 / 100, 10010 / 100, 20010 / 100],
            layouts = [[String ''a'', String ''b''], [String ''a'', String ''b''],
                       [String ''a'', String ''b'']]\<rparr>
   \<and> Inr (PlusConst
              (vsum simple_support
                 (map the (line_solutions_spec (text_solution merging_options)
                    (element_lines_spec [TextBlock ''a'' True, TextBlock ''b'' False]) None))
                 merging_options)
              (break_cost merging_options
                 * real_of_int (int (length (element_lines_spec
                      [TextBlock ''a'' True, TextBlock ''b'' False])) - 1)))
     = (Inr \<lparr>knots = [0, 79], spans = [1, 1], costs = [210 / 100, 605 / 100],
             slopes = [5 / 100, 10005 / 100],
             layouts = [[String ''a'', NewLine 0, String ''b''],
                        [String ''a'', NewLine 0, String ''b'']]\<rparr> :: error + solution)
   \<and> LineBlock_DoOptLayout simple_support (DoOptLayout (Suc 0) simple_support)
       [TextBlock ''a'' True, TextBlock ''b'' False] None merging_options
     \<noteq> Inr (PlusConst
              (vsum simple_support
                 (map the (line_solutions_spec (text_solution merging_options)
                    (element_lines_spec [TextBlock ''a'' True, TextBlock ''b'' False]) None))
                 merging_options)
              (break_cost merging_options
                 * real_of_int (int (length (element_lines_spec
                      [TextBlock ''a'' True, TextBlock ''b'' False])) - 1)))"
proof -
  let ?a = "\<lparr>knots = [0, 79], spans = [1, 1], costs = [1 / 20, 4],
            slopes = [1 / 20, 2001 / 20], layouts = [[String ''a''], [String ''a'']]\<rparr>"
  let ?b = "\<lparr>knots = [0, 79], spans = [1, 1], costs = [1 / 20, 4],
            slopes = [1 / 20, 2001 / 20], layouts = [[String ''b''], [String ''b'']]\<rparr>"
  let ?ab = "\<lparr>knots = [0, 78, 79], spans = [2, 2, 2],
             costs = [3 / 20, 159 / 20, 2161 / 20],
             slopes = [1 / 10, 1001 / 10, 2001 / 10],
             layouts = [[String ''a'', String ''b''], [String ''a'', String ''b''],
                        [String ''a'', String ''b'']]\<rparr>"
  have a: "TextBlock_DoOptLayout simple_support ''a'' None merging_options = ?a"
    and b: "TextBlock_DoOptLayout simple_support ''b'' None merging_options = ?b"
    by (simp_all add: TextBlock_DoOptLayout_def Solution_def WithRestOfLine_def Let_def
          merging_options_def default_options_def)
  have shifted: "shifted_knots ?a ?b = [78]"
    by (simp add: shifted_knots_def)
  have ab: "horizontal ?a ?b = ?ab"
    by (simp add: horizontal_def shifted compose_at_def span_at_def value_at_def slope_at_def
          layout_at_def index_at_def)
  have ab_text: "TextBlock_DoOptLayout simple_support ''a'' (Some ?b) merging_options = ?ab"
    by (simp add: TextBlock_DoOptLayout_def Solution_def WithRestOfLine_def Let_def
          merging_options_def default_options_def simple_support_def ab)
  have one_line: "vsum simple_support [?ab] merging_options = ?ab"
    by (simp add: simple_support_def vertical_def span_at_def index_at_def)
  have two_lines: "vsum simple_support [?a, ?b] merging_options =
      \<lparr>knots = [0, 79], spans = [1, 1], costs = [1 / 10, 81 / 20],
       slopes = [1 / 20, 2001 / 20],
       layouts = [[String ''a'', NewLine 0, String ''b''],
                  [String ''a'', NewLine 0, String ''b'']]\<rparr>"
    by (simp add: simple_support_def vertical_def span_at_def value_at_def layout_at_def
          index_at_def)
  have hook: "break_element_lines merging_options = Some (\<lambda>lines. [concat lines])"
    and cost: "break_cost merging_options = 2"
    by (simp_all add: merging_options_def default_options_def)
  have code: "LineBlock_DoOptLayout simple_support (DoOptLayout (Suc 0) simple_support)
       [TextBlock ''a'' True, TextBlock ''b'' False] None merging_options = Inr ?ab"
    by (simp add: LineBlock_DoOptLayout_def Let_def hook cost a b ab_text one_line
          VSumSolution_def PlusConst_def)
  have stated: "PlusConst
              (vsum simple_support
                 (map the (line_solutions_spec (text_solution merging_options)
                    (element_lines_spec [TextBlock ''a'' True, TextBlock ''b'' False]) None))
                 merging_options)
              (break_cost merging_options
                 * real_of_int (int (length (element_lines_spec
                      [TextBlock ''a'' True, TextBlock ''b'' False])) - 1))
      = \<lparr>knots = [0, 79], spans = [1, 1], costs = [21 / 10, 121 / 20],
         slopes = [1 / 20, 2001 / 20],
         layouts = [[String ''a'', NewLine 0, String ''b''],
                    [String ''a'', NewLine 0, String ''b'']]\<rparr>"
    by (simp add: line_solutions_spec_def text_solution_def a b two_lines cost PlusConst_def)
  show ?thesis
    unfolding code stated by simp
qed

subsection \<open>WrapBlock\<close>

lemma wrap_candidates_from_start:
  "wrap_candidates ops opts elements elt_layouts sep_layout prefix_layout break_mult rest_of_line wrap i
   = wrap_candidates_from ops opts elements elt_layouts sep_layout prefix_layout break_mult rest_of_line wrap i i"
  by (simp add: wrap_candidates_def wrap_candidates_from_def wrap_stop_def wrap_broken_def [abs_def] Let_def)

lemma wrap_line_extend:
  "i \<le> j \<Longrightarrow>
   wrap_line ops elt_layouts sep_layout prefix_layout i (Suc j)
   = WithRestOfLine ops (wrap_line ops elt_layouts sep_layout prefix_layout i j)
       (Some (WithRestOfLine ops sep_layout (Some (elt_layouts ! Suc j))))"
  by (simp add: wrap_line_def)

lemma wrap_line_start:
  "wrap_line ops elt_layouts sep_layout prefix_layout i i
   = (case prefix_layout of None \<Rightarrow> elt_layouts ! i
      | Some p \<Rightarrow> WithRestOfLine ops p (Some (elt_layouts ! i)))"
  by (simp add: wrap_line_def)

lemma find_upt_step:
  "j < m \<Longrightarrow> List.find P [j ..< m] = (if P j then Some j else List.find P [Suc j ..< m])"
  by (simp add: upt_conv_Cons)

lemma find_upt_ge:
  "List.find P [j ..< m] = Some k \<Longrightarrow> j \<le> k \<and> k < m"
  by (auto simp: find_Some_iff)

lemma wrap_candidates_from_step:
  assumes "j < length elements - 1"
  shows "wrap_candidates_from ops opts elements elt_layouts sep_layout prefix_layout break_mult rest wrap i j
    = wrap_broken ops opts (length elements) elt_layouts sep_layout prefix_layout break_mult wrap i j
      # (if is_breaking (elements ! j) then []
         else wrap_candidates_from ops opts elements elt_layouts sep_layout prefix_layout break_mult rest wrap i (Suc j))"
proof (cases "is_breaking (elements ! j)")
  case True
  then show ?thesis using assms
    by (simp add: wrap_candidates_from_def find_upt_step Let_def)
next
  case False
  show ?thesis
  proof (cases "List.find (\<lambda>k. is_breaking (elements ! k)) [Suc j ..< length elements - 1]")
    case None
    with False assms show ?thesis
      by (simp add: wrap_candidates_from_def find_upt_step Let_def upt_conv_Cons)
  next
    case (Some stop)
    then have "Suc j \<le> stop" using find_upt_ge by fastforce
    then have "[j ..< Suc stop] = j # [Suc j ..< Suc stop]" by (simp add: upt_conv_Cons)
    with Some False assms show ?thesis
      by (simp add: wrap_candidates_from_def find_upt_step Let_def)
  qed
qed

lemma wrap_candidates_from_end:
  assumes "\<not> j < length elements - 1"
  shows "wrap_candidates_from ops opts elements elt_layouts sep_layout prefix_layout break_mult rest wrap i j
    = [WithRestOfLine ops (wrap_line ops elt_layouts sep_layout prefix_layout i (length elements - 1)) rest]"
  using assms by (simp add: wrap_candidates_from_def Let_def)

lemma wrap_inner_candidates:
  assumes "\<forall>k. j < k \<and> k < n \<longrightarrow> wrap_solutions ! k = Some (wrap k)"
    and "n = length elements" and "i \<le> j" and "j < n"
    and "line_layout = wrap_line ops elt_layouts sep_layout prefix_layout i j"
    and "last_breaking = is_breaking (elements ! j)"
  shows "wrap_inner ops opts elements elt_layouts sep_layout wrap_solutions break_mult n rest
           j line_layout last_breaking solutions_i
         = Inr (solutions_i @ wrap_candidates_from ops opts elements elt_layouts sep_layout
                   prefix_layout break_mult rest wrap i j)"
  using assms
proof (induction "n - j" arbitrary: j line_layout last_breaking solutions_i)
  case 0
  then show ?case by simp
next
  case (Suc d)
  show ?case
  proof (cases "j < n - 1")
    case False
    with Suc.prems have j: "j = n - 1" by simp
    have nlt: "\<not> int j < int n - 1" using False by linarith
    have "wrap_inner ops opts elements elt_layouts sep_layout wrap_solutions break_mult n rest
           j line_layout last_breaking solutions_i
        = Inr (solutions_i @ [WithRestOfLine ops line_layout rest])"
      using nlt by (subst wrap_inner.simps) simp
    moreover have "\<not> j < length elements - 1" using False Suc.prems by simp
    ultimately show ?thesis
      using Suc.prems j by (simp add: wrap_candidates_from_end)
  next
    case True
    then have lt: "int j < int n - 1" by linarith
    have ws: "wrap_solutions ! (j + 1) = Some (wrap (j + 1))"
      using Suc.prems(1) True by simp
    let ?b = "wrap_broken ops opts n elt_layouts sep_layout prefix_layout break_mult wrap i j"
    have step: "wrap_candidates_from ops opts elements elt_layouts sep_layout prefix_layout break_mult rest wrap i j
       = ?b # (if is_breaking (elements ! j) then []
         else wrap_candidates_from ops opts elements elt_layouts sep_layout prefix_layout break_mult rest wrap i (Suc j))"
      using wrap_candidates_from_step [of j elements] True Suc.prems by simp
    show ?thesis
    proof (cases "is_breaking (elements ! j)")
      case True
      have "wrap_inner ops opts elements elt_layouts sep_layout wrap_solutions break_mult n rest
           j line_layout last_breaking solutions_i = Inr (solutions_i @ [?b])"
        using lt ws True Suc.prems(5,6)
        by (subst wrap_inner.simps) (simp add: VSumSolution_def wrap_broken_def Let_def)
      with step True show ?thesis by simp
    next
      case False
      let ?ext = "WithRestOfLine ops line_layout
                   (Some (WithRestOfLine ops sep_layout (Some (elt_layouts ! (j + 1)))))"
      have unfold: "wrap_inner ops opts elements elt_layouts sep_layout wrap_solutions break_mult n rest
           j line_layout last_breaking solutions_i
        = wrap_inner ops opts elements elt_layouts sep_layout wrap_solutions break_mult n rest
           (j + 1) ?ext (is_breaking (elements ! (j + 1))) (solutions_i @ [?b])"
        using lt ws False Suc.prems(5,6)
        by (subst wrap_inner.simps) (simp add: VSumSolution_def wrap_broken_def Let_def)
      have "wrap_inner ops opts elements elt_layouts sep_layout wrap_solutions break_mult n rest
           (j + 1) ?ext (is_breaking (elements ! (j + 1))) (solutions_i @ [?b])
        = Inr ((solutions_i @ [?b]) @ wrap_candidates_from ops opts elements elt_layouts sep_layout
                   prefix_layout break_mult rest wrap i (j + 1))"
      proof (rule Suc.hyps(1))
        show "d = n - (j + 1)" using Suc.hyps(2) by simp
        show "\<forall>k. j + 1 < k \<and> k < n \<longrightarrow> wrap_solutions ! k = Some (wrap k)"
          using Suc.prems(1) by simp
        show "n = length elements" by (rule Suc.prems(2))
        show "i \<le> j + 1" using Suc.prems(3) by simp
        show "j + 1 < n" using True by simp
        show "?ext = wrap_line ops elt_layouts sep_layout prefix_layout i (j + 1)"
          using Suc.prems(3,5) by (simp add: wrap_line_extend)
        show "is_breaking (elements ! (j + 1)) = is_breaking (elements ! (j + 1))" ..
      qed
      with unfold step False show ?thesis by simp
    qed
  qed
qed


lemma wrap_candidates_cong:
  assumes "\<forall>m. i < m \<and> m < length elements \<longrightarrow> w m = w' m"
  shows "wrap_candidates ops opts elements elt_layouts sep_layout prefix_layout break_mult rest w i
       = wrap_candidates ops opts elements elt_layouts sep_layout prefix_layout break_mult rest w' i"
proof (cases "wrap_stop elements i")
  case None
  have "w (Suc j) = w' (Suc j)" if "j \<in> set [i ..< length elements - 1]" for j
    using that assms by auto
  with None show ?thesis by (simp add: wrap_candidates_def Let_def)
next
  case (Some stop)
  then have "stop < length elements - 1"
    using find_upt_ge [of _ i "length elements - 1" stop] by (simp add: wrap_stop_def)
  then have "w (Suc j) = w' (Suc j)" if "j \<in> set [i ..< stop + 1]" for j
    using that assms by auto
  with Some show ?thesis by (simp add: wrap_candidates_def Let_def)
qed

lemma wrap_outer_table:
  assumes "n = length elements" and "c \<le> n" and "length W = n"
    and "\<forall>k. c \<le> k \<and> k < n \<longrightarrow> W ! k \<noteq> None"
  shows "\<exists>W'. wrap_outer ops opts elements elt_layouts sep_layout prefix_layout break_mult n
                 rest c W = Inr W'
            \<and> length W' = n
            \<and> (\<forall>k. c \<le> k \<and> k < n \<longrightarrow> W' ! k = W ! k)
            \<and> (\<forall>k. k < c \<longrightarrow> W' ! k =
                  Some (MinSolution ops
                          (wrap_candidates ops opts elements elt_layouts sep_layout
                             prefix_layout break_mult rest (\<lambda>m. the (W' ! m)) k) opts))"
  using assms
proof (induction c arbitrary: W)
  case 0
  then show ?case by simp
next
  case (Suc i)
  let ?w = "\<lambda>m. the (W ! m)"
  let ?cands = "wrap_candidates ops opts elements elt_layouts sep_layout prefix_layout
                  break_mult rest ?w i"
  let ?W1 = "W[i := Some (MinSolution ops ?cands opts)]"
  have inner: "wrap_inner ops opts elements elt_layouts sep_layout W break_mult n rest
           i (case prefix_layout of None \<Rightarrow> elt_layouts ! i
              | Some p \<Rightarrow> WithRestOfLine ops p (Some (elt_layouts ! i)))
           (is_breaking (elements ! i)) [] = Inr ([] @ wrap_candidates_from ops opts elements
              elt_layouts sep_layout prefix_layout break_mult rest ?w i i)"
  proof (rule wrap_inner_candidates)
    show "\<forall>k. i < k \<and> k < n \<longrightarrow> W ! k = Some (the (W ! k))"
      using Suc.prems(4) by auto
    show "n = length elements" by (rule Suc.prems(1))
    show "i \<le> i" by simp
    show "i < n" using Suc.prems(2) by simp
    show "(case prefix_layout of None \<Rightarrow> elt_layouts ! i
              | Some p \<Rightarrow> WithRestOfLine ops p (Some (elt_layouts ! i)))
          = wrap_line ops elt_layouts sep_layout prefix_layout i i"
      by (simp add: wrap_line_start)
    show "is_breaking (elements ! i) = is_breaking (elements ! i)" ..
  qed
  have step: "wrap_outer ops opts elements elt_layouts sep_layout prefix_layout break_mult n
                 rest (Suc i) W
      = wrap_outer ops opts elements elt_layouts sep_layout prefix_layout break_mult n
                 rest i ?W1"
    by (simp add: inner wrap_candidates_from_start Let_def)
  have "\<exists>W'. wrap_outer ops opts elements elt_layouts sep_layout prefix_layout break_mult n
                 rest i ?W1 = Inr W'
            \<and> length W' = n
            \<and> (\<forall>k. i \<le> k \<and> k < n \<longrightarrow> W' ! k = ?W1 ! k)
            \<and> (\<forall>k. k < i \<longrightarrow> W' ! k =
                  Some (MinSolution ops
                          (wrap_candidates ops opts elements elt_layouts sep_layout
                             prefix_layout break_mult rest (\<lambda>m. the (W' ! m)) k) opts))"
  proof (rule Suc.IH)
    show "n = length elements" by (rule Suc.prems(1))
    show "i \<le> n" using Suc.prems(2) by simp
    show "length ?W1 = n" using Suc.prems(3) by simp
    show "\<forall>k. i \<le> k \<and> k < n \<longrightarrow> ?W1 ! k \<noteq> None"
      using Suc.prems(3,4) by (auto simp: nth_list_update)
  qed
  then obtain W' where W':
    "wrap_outer ops opts elements elt_layouts sep_layout prefix_layout break_mult n
                 rest i ?W1 = Inr W'"
    "length W' = n"
    "\<forall>k. i \<le> k \<and> k < n \<longrightarrow> W' ! k = ?W1 ! k"
    "\<forall>k. k < i \<longrightarrow> W' ! k =
                  Some (MinSolution ops
                          (wrap_candidates ops opts elements elt_layouts sep_layout
                             prefix_layout break_mult rest (\<lambda>m. the (W' ! m)) k) opts)"
    by blast
  have i_lt: "i < n" using Suc.prems(2) by simp
  have above: "\<forall>k. Suc i \<le> k \<and> k < n \<longrightarrow> W' ! k = W ! k"
    using W'(3) by (auto simp: nth_list_update)
  have at_i: "W' ! i = Some (MinSolution ops ?cands opts)"
    using W'(3) i_lt Suc.prems(3) by simp
  have "?cands = wrap_candidates ops opts elements elt_layouts sep_layout prefix_layout
                  break_mult rest (\<lambda>m. the (W' ! m)) i"
    by (rule wrap_candidates_cong) (use above Suc.prems(1) in auto)
  with at_i have eq_i: "W' ! i = Some (MinSolution ops
                          (wrap_candidates ops opts elements elt_layouts sep_layout
                             prefix_layout break_mult rest (\<lambda>m. the (W' ! m)) i) opts)"
    by simp
  have below: "\<forall>k. k < Suc i \<longrightarrow> W' ! k =
                  Some (MinSolution ops
                          (wrap_candidates ops opts elements elt_layouts sep_layout
                             prefix_layout break_mult rest (\<lambda>m. the (W' ! m)) k) opts)"
    using W'(4) eq_i by (auto simp: less_Suc_eq)
  from step W'(1,2) above below show ?case by auto
qed

text \<open>
  C3. For a \<open>WrapBlock\<close> with \<open>n \<ge> 1\<close> elements whose \<open>OptLayout\<close> calls return
  solutions there is a table \<open>wrap\<close> with: \<open>wrap i\<close>, for every \<open>i < n\<close>, is the minimum
  of the candidates of \<open>i\<close>, and the result of \<open>DoOptLayout\<close> is \<open>wrap 0\<close>. The
  candidates (\<open>wrap_candidates\<close>) are: for each \<open>j\<close> from \<open>i\<close> up to \<open>n - 2\<close>, and no
  further than the first element that mandates a break, the vertical sum of the line
  holding the elements \<open>i..j\<close> with \<open>wrap (j + 1)\<close>, plus
  \<open>break_cost * break_mult + late_pack_cost * (n - j)\<close>; and, when no element from \<open>i\<close>
  to \<open>n - 2\<close> mandates a break, the line holding \<open>i..n - 1\<close> composed with
  \<open>rest_of_line\<close>.
\<close>

theorem WrapBlock_dynamic_program:
  assumes "elements \<noteq> []"
    and "OL (TextBlock sep False) None opts = Inr sep_layout"
    and "\<forall>e\<in>set elements. OL e None opts = Inr (sol e)"
    and "prefix_layout = (case prefix of None \<Rightarrow> None
            | Some p \<Rightarrow> if p = [] then None else Some (TextBlock_DoOptLayout ops p None opts))"
  shows "\<exists>wrap. (\<forall>i. i < length elements \<longrightarrow>
                   wrap i = MinSolution ops
                     (wrap_candidates ops opts elements (map sol elements) sep_layout
                        prefix_layout break_mult rest_of_line wrap i) opts)
               \<and> WrapBlock_DoOptLayout ops OL elements sep break_mult prefix rest_of_line opts
                   = Inr (wrap 0)"
proof -
  let ?n = "length elements"
  have elts: "mapE (\<lambda>e. OL e None opts) elements = Inr (map sol elements)"
    using assms(3) by (rule mapE_total)
  obtain W' where W':
    "wrap_outer ops opts elements (map sol elements) sep_layout prefix_layout break_mult ?n
                 rest_of_line ?n (replicate ?n None) = Inr W'"
    "length W' = ?n"
    "\<forall>k. k < ?n \<longrightarrow> W' ! k =
                  Some (MinSolution ops
                          (wrap_candidates ops opts elements (map sol elements) sep_layout
                             prefix_layout break_mult rest_of_line (\<lambda>m. the (W' ! m)) k) opts)"
    using wrap_outer_table [of ?n elements ?n "replicate ?n None" ops opts "map sol elements"
        sep_layout prefix_layout break_mult rest_of_line]
    by auto
  have pos: "0 < ?n" using assms(1) by simp
  have ne: "W' \<noteq> []" using W'(2) pos by auto
  obtain r where first: "W' ! 0 = Some r" using W'(3) pos by blast
  have result: "WrapBlock_DoOptLayout ops OL elements sep break_mult prefix rest_of_line opts
      = Inr (the (W' ! 0))"
    unfolding WrapBlock_DoOptLayout_def assms(2) elts Let_def assms(4) [symmetric]
    using W'(1) ne first by simp
  have "\<forall>i. i < ?n \<longrightarrow> the (W' ! i) = MinSolution ops
                     (wrap_candidates ops opts elements (map sol elements) sep_layout
                        prefix_layout break_mult rest_of_line (\<lambda>m. the (W' ! m)) i) opts"
    using W'(3) by simp
  with result show ?thesis by (intro exI [of _ "\<lambda>m. the (W' ! m)"]) simp
qed


text \<open>The theorem at the wrap of \<open>a\<close> and \<open>b\<close> under the default options.\<close>

theorem WrapBlock_dynamic_program_witness:
  "\<exists>wrap. (\<forall>i. i < length [TextBlock ''a'' False, TextBlock ''b'' False] \<longrightarrow>
             wrap i = MinSolution simple_support
               (wrap_candidates simple_support default_options
                  [TextBlock ''a'' False, TextBlock ''b'' False]
                  (map (\<lambda>b. text_solution default_options b None)
                     [TextBlock ''a'' False, TextBlock ''b'' False])
                  (TextBlock_DoOptLayout simple_support '' '' None default_options)
                  None 1 None wrap i) default_options)
         \<and> WrapBlock_DoOptLayout simple_support (DoOptLayout (Suc 0) simple_support)
             [TextBlock ''a'' False, TextBlock ''b'' False] '' '' 1 None None default_options
             = Inr (wrap 0)"
  by (rule WrapBlock_dynamic_program) (simp_all add: text_solution_def)

subsection \<open>JoinedLineBlock\<close>

lemma joined_loop_spec:
  "joined_loop es joiner jb joined
     = joined @ concat (map (\<lambda>e. if \<not> is_breaking e \<or> jb then [e, joiner] else [e]) es)"
  by (induction es arbitrary: joined) auto

lemma check_elements_blocks: "check_elements (map IsBlock bs) = Inr bs"
  by (induction bs) auto

lemma new_LineBlock_blocks: "bs \<noteq> [] \<Longrightarrow> new_LineBlock (map IsBlock bs) = Inr (LineBlock bs)"
  by (simp add: new_LineBlock_def CompositeLayoutBlock_init_def check_elements_blocks)

text \<open>
  C10. A \<open>JoinedLineBlock\<close> with at least two elements is laid out as the \<open>LineBlock\<close>
  of: every element but the last, followed by the joiner when the element is not breaking
  or \<open>join_breaking\<close> is set, then the last element. The placement reads only
  \<open>is_breaking\<close>; every element, an empty \<open>TextBlock\<close> too, is in that list.
\<close>

theorem JoinedLineBlock_joiner_placement:
  assumes "length elements \<ge> 2"
  shows "JoinedLineBlock_DoOptLayout OL elements joiner join_breaking rest_of_line opts
           = OL (LineBlock (joined_spec elements
                   (case joiner of Inl text \<Rightarrow> TextBlock text False | Inr b \<Rightarrow> b)
                   join_breaking)) rest_of_line opts
         \<and> set elements \<subseteq> set (joined_spec elements
                   (case joiner of Inl text \<Rightarrow> TextBlock text False | Inr b \<Rightarrow> b)
                   join_breaking)"
proof -
  let ?j = "case joiner of Inl text \<Rightarrow> TextBlock text False | Inr b \<Rightarrow> b"
  have ne: "elements \<noteq> []" and n1: "length elements \<noteq> 1" using assms by auto
  have joined: "joined_loop (butlast elements) ?j join_breaking [] @ [last elements]
      = joined_spec elements ?j join_breaking"
    by (simp add: joined_loop_spec joined_spec_def)
  have built: "new_LineBlock
        (map IsBlock (joined_loop (butlast elements) ?j join_breaking [] @ [last elements]))
      = Inr (LineBlock (joined_spec elements ?j join_breaking))"
    unfolding joined by (rule new_LineBlock_blocks) (simp add: joined_spec_def)
  have "JoinedLineBlock_DoOptLayout OL elements joiner join_breaking rest_of_line opts
           = OL (LineBlock (joined_spec elements ?j join_breaking)) rest_of_line opts"
    unfolding JoinedLineBlock_DoOptLayout_def JoinedLineBlock_CompositeOptLayout_def
      Let_def built
    using ne n1 by simp
  moreover have "set elements \<subseteq> set (joined_spec elements ?j join_breaking)"
  proof
    fix e assume "e \<in> set elements"
    then have "e \<in> set (butlast elements) \<or> e = last elements"
      using ne by (metis append_butlast_last_id insert_iff list.set(2) rotate1.simps(2) set_rotate1)
    then show "e \<in> set (joined_spec elements ?j join_breaking)"
      by (auto simp: joined_spec_def)
  qed
  ultimately show ?thesis by simp
qed

text \<open>An empty text block first: the joiner follows it.\<close>

theorem JoinedLineBlock_joiner_placement_witness:
  "JoinedLineBlock_DoOptLayout (DoOptLayout (Suc (Suc 0)) simple_support)
       [TextBlock [] False, TextBlock ''b'' False] (Inl '' '') False None default_options
     = DoOptLayout (Suc (Suc 0)) simple_support
         (LineBlock [TextBlock [] False, TextBlock '' '' False, TextBlock ''b'' False])
         None default_options"
  using JoinedLineBlock_joiner_placement
    [of "[TextBlock [] False, TextBlock ''b'' False]"
        "DoOptLayout (Suc (Suc 0)) simple_support" "Inl '' ''" False None default_options]
  by (simp add: joined_spec_def)

subsection \<open>The bound on nesting\<close>

text \<open>
  A result obtained under some bound on the nesting of calls is the result under every
  larger bound: the bound only decides whether the layout is computed, never what it is.
\<close>

lemma DoOptLayout_Suc_simps:
  "DoOptLayout (Suc depth) ops (TextBlock text b) rest opts
     = Inr (TextBlock_DoOptLayout ops text rest opts)"
  "DoOptLayout (Suc depth) ops (VerbBlock lines b first_nl) rest opts
     = VerbBlock_DoOptLayout lines first_nl rest opts"
  "DoOptLayout (Suc depth) ops (LineBlock elements) rest opts
     = LineBlock_DoOptLayout ops (DoOptLayout depth ops) elements rest opts"
  "DoOptLayout (Suc depth) ops (ChoiceBlock elements) rest opts
     = ChoiceBlock_DoOptLayout ops (DoOptLayout depth ops) elements rest opts"
  "DoOptLayout (Suc depth) ops (StackBlock elements break_mult) rest opts
     = StackBlock_DoOptLayout ops (DoOptLayout depth ops) elements break_mult rest opts"
  "DoOptLayout (Suc depth) ops (WrapBlock elements sep break_mult prefix) rest opts
     = WrapBlock_DoOptLayout ops (DoOptLayout depth ops) elements sep break_mult prefix rest opts"
  "DoOptLayout (Suc depth) ops (JoinedLineBlock elements joiner join_breaking) rest opts
     = JoinedLineBlock_DoOptLayout (DoOptLayout depth ops) elements joiner join_breaking rest opts"
  by simp_all

lemma mapE_mono:
  "(\<And>x y. f x = Inr y \<Longrightarrow> g x = Inr y) \<Longrightarrow> mapE f xs = Inr ys \<Longrightarrow> mapE g xs = Inr ys"
proof (induction xs arbitrary: ys)
  case Nil
  then show ?case by simp
next
  case (Cons x xs)
  from Cons.prems(2) obtain y ys' where
    "f x = Inr y" "mapE f xs = Inr ys'" "ys = y # ys'"
    by (auto split: sum.splits)
  with Cons show ?case by simp
qed

lemma fold_line_mono:
  "extends OL OL' \<Longrightarrow> fold_line OL opts line acc = Inr s \<Longrightarrow> fold_line OL' opts line acc = Inr s"
proof (induction line arbitrary: acc)
  case Nil
  then show ?case by simp
next
  case (Cons e es)
  from Cons.prems(2) obtain s' where
    "OL e acc opts = Inr s'" "fold_line OL opts es (Some s') = Inr s"
    by (auto split: sum.splits)
  with Cons show ?case by (simp add: extends_def)
qed

lemma solve_lines_mono:
  "extends OL OL' \<Longrightarrow> solve_lines OL opts n i lines rest = Inr ss
     \<Longrightarrow> solve_lines OL' opts n i lines rest = Inr ss"
proof (induction lines arbitrary: i ss)
  case Nil
  then show ?case by simp
next
  case (Cons l ls)
  from Cons.prems(2) obtain s ss' where
    "fold_line OL opts (rev l) (if int i < int n - 1 then None else rest) = Inr s"
    "solve_lines OL opts n (Suc i) ls rest = Inr ss'" "ss = s # ss'"
    by (auto split: sum.splits)
  with Cons show ?case by (simp add: fold_line_mono)
qed

lemma LineBlock_DoOptLayout_mono:
  assumes "extends OL OL'" and "LineBlock_DoOptLayout ops OL es rest opts = Inr s"
  shows "LineBlock_DoOptLayout ops OL' es rest opts = Inr s"
  using assms(2) solve_lines_mono [OF assms(1)]
  by (auto simp: LineBlock_DoOptLayout_def Let_def split: if_splits sum.splits option.splits)

lemma ChoiceBlock_DoOptLayout_mono:
  assumes "extends OL OL'" and "ChoiceBlock_DoOptLayout ops OL es rest opts = Inr s"
  shows "ChoiceBlock_DoOptLayout ops OL' es rest opts = Inr s"
proof -
  from assms(2) obtain ss where ss: "mapE (\<lambda>e. OL e rest opts) es = Inr ss"
    and s: "s = MinSolution ops ss opts"
    by (auto simp: ChoiceBlock_DoOptLayout_def split: sum.splits)
  have "mapE (\<lambda>e. OL' e rest opts) es = Inr ss"
    by (rule mapE_mono [where f = "\<lambda>e. OL e rest opts", OF _ ss]) (use assms(1) in \<open>simp add: extends_def\<close>)
  with s show ?thesis by (simp add: ChoiceBlock_DoOptLayout_def)
qed

lemma StackBlock_DoOptLayout_mono:
  assumes "extends OL OL'" and "StackBlock_DoOptLayout ops OL es bm rest opts = Inr s"
  shows "StackBlock_DoOptLayout ops OL' es bm rest opts = Inr s"
proof (cases "es = []")
  case True
  with assms(2) show ?thesis by (simp add: StackBlock_DoOptLayout_def)
next
  case False
  show ?thesis
  proof (cases "mapE (\<lambda>e. OL e None opts) (butlast es)")
    case (Inl e)
    with assms(2) False show ?thesis by (simp add: StackBlock_DoOptLayout_def)
  next
    case f: (Inr firsts)
    have f': "mapE (\<lambda>e. OL' e None opts) (butlast es) = Inr firsts"
      by (rule mapE_mono [where f = "\<lambda>e. OL e None opts", OF _ f]) (use assms(1) in \<open>simp add: extends_def\<close>)
    show ?thesis
    proof (cases "OL (last es) rest opts")
      case (Inl e)
      with assms(2) False f show ?thesis by (simp add: StackBlock_DoOptLayout_def)
    next
      case l: (Inr final)
      then have l': "OL' (last es) rest opts = Inr final"
        using assms(1) by (simp add: extends_def)
      have "StackBlock_DoOptLayout ops OL' es bm rest opts
          = StackBlock_DoOptLayout ops OL es bm rest opts"
        unfolding StackBlock_DoOptLayout_def f f' l l' ..
      with assms(2) show ?thesis by simp
    qed
  qed
qed

lemma WrapBlock_DoOptLayout_mono:
  assumes "extends OL OL'" and "WrapBlock_DoOptLayout ops OL es sep bm prefix rest opts = Inr s"
  shows "WrapBlock_DoOptLayout ops OL' es sep bm prefix rest opts = Inr s"
proof (cases "OL (TextBlock sep False) None opts")
  case (Inl e)
  with assms(2) show ?thesis by (simp add: WrapBlock_DoOptLayout_def)
next
  case (Inr sl)
  then have sl': "OL' (TextBlock sep False) None opts = Inr sl"
    using assms(1) by (simp add: extends_def)
  show ?thesis
  proof (cases "mapE (\<lambda>e. OL e None opts) es")
    case (Inl e)
    with assms(2) Inr show ?thesis by (simp add: WrapBlock_DoOptLayout_def)
  next
    case ss: (Inr ss)
    have ss': "mapE (\<lambda>e. OL' e None opts) es = Inr ss"
      by (rule mapE_mono [where f = "\<lambda>e. OL e None opts", OF _ ss]) (use assms(1) in \<open>simp add: extends_def\<close>)
    have "WrapBlock_DoOptLayout ops OL' es sep bm prefix rest opts
        = WrapBlock_DoOptLayout ops OL es sep bm prefix rest opts"
      unfolding WrapBlock_DoOptLayout_def Inr sl' ss ss' ..
    with assms(2) show ?thesis by simp
  qed
qed

lemma JoinedLineBlock_DoOptLayout_mono:
  assumes "extends OL OL'" and "JoinedLineBlock_DoOptLayout OL es j jb rest opts = Inr s"
  shows "JoinedLineBlock_DoOptLayout OL' es j jb rest opts = Inr s"
proof -
  have call: "OL b r opts = Inr s \<Longrightarrow> OL' b r opts = Inr s" for b r
    using assms(1) by (simp add: extends_def)
  show ?thesis
  proof (cases "es = [] \<or> length es = 1")
    case True
    with assms(2) call show ?thesis
      by (auto simp: JoinedLineBlock_DoOptLayout_def)
  next
    case False
    let ?built = "new_LineBlock (map IsBlock
        (joined_loop (butlast es) (case j of Inl text \<Rightarrow> TextBlock text False | Inr b \<Rightarrow> b) jb []
           @ [last es]))"
    show ?thesis
    proof (cases ?built)
      case (Inl e)
      with assms(2) False show ?thesis
        by (simp add: JoinedLineBlock_DoOptLayout_def JoinedLineBlock_CompositeOptLayout_def Let_def)
    next
      case (Inr block)
      with assms(2) False have "OL block rest opts = Inr s"
        by (simp add: JoinedLineBlock_DoOptLayout_def JoinedLineBlock_CompositeOptLayout_def Let_def)
      then have "OL' block rest opts = Inr s" by (rule call)
      with Inr False show ?thesis
        by (simp add: JoinedLineBlock_DoOptLayout_def JoinedLineBlock_CompositeOptLayout_def Let_def)
    qed
  qed
qed

lemma DoOptLayout_Suc:
  "extends (DoOptLayout depth ops) (DoOptLayout (Suc depth) ops)"
proof (induction depth)
  case 0
  show ?case by (simp add: extends_def)
next
  case (Suc d)
  show ?case
    unfolding extends_def
  proof (intro allI impI)
    fix b r opts s
    assume a: "DoOptLayout (Suc d) ops b r opts = Inr s"
    show "DoOptLayout (Suc (Suc d)) ops b r opts = Inr s"
    proof (cases b)
      case (TextBlock t brk)
      with a show ?thesis by (simp only: DoOptLayout_Suc_simps)
    next
      case (VerbBlock ls brk fnl)
      with a show ?thesis by (simp only: DoOptLayout_Suc_simps)
    next
      case (LineBlock es)
      with a have "LineBlock_DoOptLayout ops (DoOptLayout d ops) es r opts = Inr s"
        by (simp only: DoOptLayout_Suc_simps)
      then have "LineBlock_DoOptLayout ops (DoOptLayout (Suc d) ops) es r opts = Inr s"
        by (rule LineBlock_DoOptLayout_mono [OF Suc])
      with LineBlock show ?thesis by (simp only: DoOptLayout_Suc_simps)
    next
      case (ChoiceBlock es)
      with a have "ChoiceBlock_DoOptLayout ops (DoOptLayout d ops) es r opts = Inr s"
        by (simp only: DoOptLayout_Suc_simps)
      then have "ChoiceBlock_DoOptLayout ops (DoOptLayout (Suc d) ops) es r opts = Inr s"
        by (rule ChoiceBlock_DoOptLayout_mono [OF Suc])
      with ChoiceBlock show ?thesis by (simp only: DoOptLayout_Suc_simps)
    next
      case (StackBlock es bm)
      with a have "StackBlock_DoOptLayout ops (DoOptLayout d ops) es bm r opts = Inr s"
        by (simp only: DoOptLayout_Suc_simps)
      then have "StackBlock_DoOptLayout ops (DoOptLayout (Suc d) ops) es bm r opts = Inr s"
        by (rule StackBlock_DoOptLayout_mono [OF Suc])
      with StackBlock show ?thesis by (simp only: DoOptLayout_Suc_simps)
    next
      case (WrapBlock es sep bm pf)
      with a have "WrapBlock_DoOptLayout ops (DoOptLayout d ops) es sep bm pf r opts = Inr s"
        by (simp only: DoOptLayout_Suc_simps)
      then have "WrapBlock_DoOptLayout ops (DoOptLayout (Suc d) ops) es sep bm pf r opts = Inr s"
        by (rule WrapBlock_DoOptLayout_mono [OF Suc])
      with WrapBlock show ?thesis by (simp only: DoOptLayout_Suc_simps)
    next
      case (JoinedLineBlock es j jb)
      with a have "JoinedLineBlock_DoOptLayout (DoOptLayout d ops) es j jb r opts = Inr s"
        by (simp only: DoOptLayout_Suc_simps)
      then have "JoinedLineBlock_DoOptLayout (DoOptLayout (Suc d) ops) es j jb r opts = Inr s"
        by (rule JoinedLineBlock_DoOptLayout_mono [OF Suc])
      with JoinedLineBlock show ?thesis by (simp only: DoOptLayout_Suc_simps)
    qed
  qed
qed

lemma DoOptLayout_deeper:
  "DoOptLayout depth ops b r opts = Inr s \<Longrightarrow> DoOptLayout (depth + k) ops b r opts = Inr s"
proof (induction k)
  case 0
  then show ?case by simp
next
  case (Suc k)
  then have "DoOptLayout (depth + k) ops b r opts = Inr s" by simp
  moreover have "extends (DoOptLayout (depth + k) ops) (DoOptLayout (Suc (depth + k)) ops)"
    by (rule DoOptLayout_Suc)
  ultimately have "DoOptLayout (Suc (depth + k)) ops b r opts = Inr s"
    unfolding extends_def by blast
  then show ?case by (simp only: add_Suc_right)
qed

lemma Render_deeper:
  "Render depth ops b opts = Inr out \<Longrightarrow> Render (depth + k) ops b opts = Inr out"
proof -
  assume r: "Render depth ops b opts = Inr out"
  then obtain soln where soln: "DoOptLayout depth ops b None opts = Inr soln"
    by (cases "DoOptLayout depth ops b None opts") (simp_all add: Render_def PrintOn_def)
  then have "DoOptLayout (depth + k) ops b None opts = Inr soln" by (rule DoOptLayout_deeper)
  with r soln show ?thesis by (simp add: Render_def PrintOn_def)
qed

subsection \<open>Rendering\<close>

lemma Choice_singleton_DoOptLayout:
  "DoOptLayout (Suc depth) ops (ChoiceBlock [t]) rest opts = DoOptLayout depth ops t rest opts"
  by (simp add: ChoiceBlock_DoOptLayout_def MinSolution_def split: sum.splits)

lemma Choice_singleton_Render:
  "Render (Suc depth) ops (ChoiceBlock [t]) opts = Render depth ops t opts"
  by (simp only: Render_def PrintOn_def Choice_singleton_DoOptLayout)

text \<open>
  C8. For every block tree \<open>t\<close>, every options value and every text \<open>out\<close>: rendering
  \<open>ChoiceBlock [t]\<close> yields \<open>out\<close> (under some bound on the nesting of calls) exactly
  when rendering \<open>t\<close> yields \<open>out\<close>.
\<close>

theorem Choice_singleton_same_output:
  "(\<exists>depth. Render depth ops (ChoiceBlock [t]) opts = Inr out)
     = (\<exists>depth. Render depth ops t opts = Inr out)"
proof
  assume "\<exists>depth. Render depth ops (ChoiceBlock [t]) opts = Inr out"
  then obtain d where d: "Render d ops (ChoiceBlock [t]) opts = Inr out" ..
  show "\<exists>depth. Render depth ops t opts = Inr out"
  proof (cases d)
    case 0
    with d show ?thesis by (simp add: Render_def PrintOn_def)
  next
    case (Suc d')
    with d have "Render d' ops t opts = Inr out" by (simp add: Choice_singleton_Render)
    then show ?thesis ..
  qed
next
  assume "\<exists>depth. Render depth ops t opts = Inr out"
  then obtain d where "Render d ops t opts = Inr out" ..
  then have "Render (Suc d) ops (ChoiceBlock [t]) opts = Inr out"
    by (simp add: Choice_singleton_Render)
  then show "\<exists>depth. Render depth ops (ChoiceBlock [t]) opts = Inr out" ..
qed


lemma Choice_singleton_example:
  "Render (Suc (Suc 0)) simple_support (ChoiceBlock [TextBlock ''foobar'' False]) default_options
     = Inr ''foobar''"
  by (simp add: Render_def PrintOn_def ChoiceBlock_DoOptLayout_def MinSolution_def
        TextBlock_DoOptLayout_def Solution_def WithRestOfLine_def default_options_def Let_def)

end
